theory Spec2Isabelle
  imports Main "HOL-Library.Word"
begin

section \<open>Data model of \<^verbatim>\<open>ethash.go\<close>\<close>

text \<open>
  Go's \<^verbatim>\<open>uint64\<close> is \<open>64 word\<close> (arithmetic wraps, \<open>div\<close> and \<open><\<close> are unsigned),
  a \<^verbatim>\<open>[]byte\<close> is a list of \<open>8 word\<close>, a \<^verbatim>\<open>*big.Int\<close> is an \<open>int\<close>.
  A slice that may be \<^verbatim>\<open>nil\<close> and whose nil-ness is observable is a \<open>bytes option\<close>
  (\<open>None\<close> is \<^verbatim>\<open>nil\<close>). Logging (\<^verbatim>\<open>log\<close>, \<^verbatim>\<open>fmt\<close>, \<^verbatim>\<open>powlogger\<close>) changes nothing that
  is modelled and is left out, as is \<^verbatim>\<open>parseNonce\<close>, which no method calls.
\<close>

type_synonym uint64 = "64 word"
type_synonym uint32 = "32 word"
type_synonym byte = "8 word"
type_synonym bytes = "byte list"

text \<open>A run-time panic of the Go program is a value; a function that can panic returns
  \<open>panic + 'a\<close>, with \<open>Inl\<close> the panic.\<close>

datatype panic =
    IndexOutOfRange
  | SliceBoundsOutOfRange
  | NilPointerDereference
  | DivisionByZero
  | IOError

subsection \<open>\<^verbatim>\<open>GetSeedBlockNum\<close>\<close>

definition epochLength :: uint64 where
  "epochLength = 30000"

definition GetSeedBlockNum :: "uint64 \<Rightarrow> uint64" where
  "GetSeedBlockNum blockNum =
     (if blockNum > epochLength then ((blockNum - 1) div epochLength) * epochLength else 0)"

subsection \<open>Library functions the source calls\<close>

text \<open>\<^verbatim>\<open>binary.BigEndian.Uint64\<close> and \<^verbatim>\<open>binary.BigEndian.PutUint64\<close> on an 8-byte slice.\<close>

definition BigEndian_Uint64 :: "bytes \<Rightarrow> uint64" where
  "BigEndian_Uint64 b = foldl (\<lambda>a x. a * 256 + ucast x) 0 b"

definition BigEndian_PutUint64 :: "uint64 \<Rightarrow> bytes" where
  "BigEndian_PutUint64 v = map (\<lambda>i. ucast (drop_bit (8 * (7 - i)) v)) [0..<8]"

text \<open>\<^verbatim>\<open>ethutil.Bytes2Big\<close>: the bytes read as a big-endian unsigned integer.\<close>

definition Bytes2Big :: "bytes \<Rightarrow> int" where
  "Bytes2Big b = foldl (\<lambda>a x. a * 256 + uint x) 0 b"

text \<open>\<^verbatim>\<open>C.GoBytes(p, n)\<close>: a fresh, non-nil slice of the \<open>n\<close> bytes at \<open>p\<close>.\<close>

definition GoBytes :: "bytes \<Rightarrow> nat \<Rightarrow> bytes" where
  "GoBytes p n = take n p"

text \<open>\<^verbatim>\<open>(*big.Int).Div\<close> is Euclidean division and panics on a zero divisor.\<close>

definition big_Div :: "int \<Rightarrow> int \<Rightarrow> panic + int" where
  "big_Div x y = (if y = 0 then Inl DivisionByZero else Inr (sgn y * (x div \<bar>y\<bar>)))"

text \<open>The contents of a slice that may be nil (\<^verbatim>\<open>len(nil) = 0\<close>).\<close>

fun the_bytes :: "bytes option \<Rightarrow> bytes" where
  "the_bytes None = []"
| "the_bytes (Some b) = b"

text \<open>A buffer of \<open>n\<close> bytes obtained from \<^verbatim>\<open>C.malloc(n)\<close> and then filled by a C function
  whose output is \<open>b\<close>: the buffer has exactly \<open>n\<close> bytes.\<close>

definition fit :: "nat \<Rightarrow> bytes \<Rightarrow> bytes" where
  "fit n b = take n b @ replicate (n - length b) 0"

subsection \<open>Structs\<close>

text \<open>\<^verbatim>\<open>var tt256 = new(big.Int).Exp(big.NewInt(2), big.NewInt(256), big.NewInt(0))\<close>:
  with modulus 0, \<^verbatim>\<open>Exp\<close> is the plain power.\<close>

definition tt256 :: int where
  "tt256 = 2 ^ 256"

record ethash_params =
  full_size :: nat
  cache_size :: nat

record ethash_return_value =
  result :: bytes
  mix_hash :: bytes

text \<open>\<^verbatim>\<open>DAG.dag\<close> is the field \<open>DAG_dag\<close> here (the name \<open>dag\<close> is \<^verbatim>\<open>Ethash.dag\<close>); a
  buffer behind an \<^verbatim>\<open>unsafe.Pointer\<close> is the list of its bytes.\<close>

record DAG =
  DAG_SeedBlockNum :: uint64
  DAG_dag :: bytes

record ParamsAndCache =
  params :: ethash_params
  cache :: bytes
  PAC_SeedBlockNum :: uint64

text \<open>What the methods do to the two mutexes and which C functions they call is logged as a
  list of events, oldest first.\<close>

datatype mutex = cacheMutex | dagMutex

datatype cfun =
    C_ethash_params_init
  | C_malloc
  | C_ethash_mkcache
  | C_ethash_compute_full_data
  | C_free
  | C_ethash_full
  | C_ethash_light

datatype event = Lock mutex | Unlock mutex | Call cfun

text \<open>
  The state a method works on: the fields of \<^verbatim>\<open>Ethash\<close> that change (\<open>turbo\<close>,
  \<open>HashRate\<close>, \<open>dag\<close> with \<open>None\<close> for \<^verbatim>\<open>nil\<close>, \<open>paramsAndCache\<close>, \<open>ret\<close>), the
  file \<^verbatim>\<open>/tmp/dag\<close> (\<open>disk\<close>: \<open>None\<close> when \<^verbatim>\<open>os.Open\<close> fails, else its bytes) and the
  event log (\<open>trace\<close>). \<^verbatim>\<open>nextdag\<close> is never used by the source.
\<close>

record Ethash =
  turbo :: bool
  HashRate :: int
  dag :: "DAG option"
  paramsAndCache :: ParamsAndCache
  ret :: ethash_return_value
  disk :: "bytes option"
  trace :: "event list"

text \<open>
  What a method reads and does not change. The chain manager (\<^verbatim>\<open>pow.ChainManager\<close>) gives
  the current height and the seed hash stored in the block of a given number. The five
  functions of \<^verbatim>\<open>libethash\<close> are parameters: each is the content it leaves in its output
  buffer, as a function of its inputs. \<open>ReadAll_spare\<close> is what lies between the length and
  the capacity of the slice \<^verbatim>\<open>ioutil.ReadAll\<close> returns (Go checks \<^verbatim>\<open>data[0:8]\<close> against the
  capacity). \<open>rand_Int63\<close> is the value \<^verbatim>\<open>uint64(r.Int63())\<close> of the freshly seeded generator
  and \<open>measured_hashes i\<close> the value \<^verbatim>\<open>int64(hashes)\<close> the wall clock yields at attempt \<open>i\<close>.
\<close>

record env =
  CurrentBlock_NumberU64 :: uint64
  GetBlockByNumber_SeedHash :: "uint64 \<Rightarrow> bytes option"
  ethash_params_init :: "uint32 \<Rightarrow> ethash_params"
  ethash_mkcache :: "ethash_params \<Rightarrow> bytes \<Rightarrow> bytes"
  ethash_compute_full_data :: "ethash_params \<Rightarrow> bytes \<Rightarrow> bytes"
  ethash_full :: "bytes \<Rightarrow> ethash_params \<Rightarrow> bytes \<Rightarrow> uint64 \<Rightarrow> ethash_return_value"
  ethash_light :: "bytes \<Rightarrow> ethash_params \<Rightarrow> bytes \<Rightarrow> uint64 \<Rightarrow> ethash_return_value"
  ReadAll_fails :: bool
  ReadAll_spare :: bytes
  Create_fails :: bool
  rand_Int63 :: uint64
  measured_hashes :: "nat \<Rightarrow> int"

text \<open>The methods of \<^verbatim>\<open>pow.Block\<close> the source calls.\<close>

record Block =
  HashNoNonce :: bytes
  Difficulty :: int
  NumberU64 :: uint64
  Nonce :: uint64
  MixDigest :: bytes
  SeedHash :: bytes

subsection \<open>Cache\<close>

text \<open>\<^verbatim>\<open>makeParamsAndCache\<close> touches no field of \<^verbatim>\<open>Ethash\<close>; it takes and returns the event
  log. \<^verbatim>\<open>&seedHash[0]\<close> panics on an empty seed hash.\<close>

definition makeParamsAndCache ::
  "env \<Rightarrow> uint64 \<Rightarrow> event list \<Rightarrow> panic + (ParamsAndCache \<times> event list)" where
  "makeParamsAndCache e blockNum tr =
     (let seedBlockNum = GetSeedBlockNum blockNum;
          p = ethash_params_init e (ucast seedBlockNum);
          seedHash = GetBlockByNumber_SeedHash e seedBlockNum
      in if the_bytes seedHash = [] then Inl IndexOutOfRange
         else Inr (\<lparr>params = p,
                     cache = fit (cache_size p) (ethash_mkcache e p (the_bytes seedHash)),
                     PAC_SeedBlockNum = seedBlockNum\<rparr>,
                   tr @ [Call C_ethash_params_init, Call C_malloc, Call C_ethash_mkcache]))"

definition updateCache :: "env \<Rightarrow> Ethash \<Rightarrow> panic + Ethash" where
  "updateCache e s =
     (let tr = trace s @ [Lock cacheMutex];
          seedNum = GetSeedBlockNum (CurrentBlock_NumberU64 e)
      in if PAC_SeedBlockNum (paramsAndCache s) \<noteq> seedNum then
           (case makeParamsAndCache e (CurrentBlock_NumberU64 e) tr of
              Inl err \<Rightarrow> Inl err
            | Inr (p, tr') \<Rightarrow>
                Inr (s\<lparr>paramsAndCache := p, trace := tr' @ [Unlock cacheMutex]\<rparr>))
         else Inr (s\<lparr>trace := tr @ [Unlock cacheMutex]\<rparr>))"

subsection \<open>Dataset\<close>

definition makeDAG :: "env \<Rightarrow> ParamsAndCache \<Rightarrow> event list \<Rightarrow> DAG \<times> event list" where
  "makeDAG e p tr =
     (\<lparr>DAG_SeedBlockNum = PAC_SeedBlockNum p,
       DAG_dag = fit (full_size (params p)) (ethash_compute_full_data e (params p) (cache p))\<rparr>,
      tr @ [Call C_malloc, Call C_ethash_compute_full_data])"

text \<open>\<^verbatim>\<open>writeDagToDisk\<close> panics when \<^verbatim>\<open>os.Create\<close> fails and ignores what
  \<^verbatim>\<open>file.Write\<close> returns. Sizes are unbounded naturals here: the conversion
  \<^verbatim>\<open>C.int(full_size)\<close> of line 114, which is negative from \<open>2 ^ 31\<close> bytes on and makes
  \<^verbatim>\<open>C.GoBytes\<close> panic, is not modelled, so for such sizes the model returns where the
  program panics.\<close>

definition writeDagToDisk :: "env \<Rightarrow> DAG \<Rightarrow> uint64 \<Rightarrow> Ethash \<Rightarrow> panic + Ethash" where
  "writeDagToDisk e d seedNum s =
     (let data = GoBytes (DAG_dag d) (full_size (params (paramsAndCache s)))
      in if Create_fails e then Inl IOError
         else Inr (s\<lparr>disk := Some (BigEndian_PutUint64 seedNum @ data)\<rparr>))"

text \<open>Lines 147-148 and again 158-159 of the source:
  \<^verbatim>\<open>pow.dag = makeDAG(pow.paramsAndCache); file = pow.writeDagToDisk(pow.dag, seedNum)\<close>.\<close>

definition regenerate :: "env \<Rightarrow> uint64 \<Rightarrow> Ethash \<Rightarrow> panic + Ethash" where
  "regenerate e seedNum s =
     (case makeDAG e (paramsAndCache s) (trace s) of
        (d, tr) \<Rightarrow> writeDagToDisk e d seedNum (s\<lparr>dag := Some d, trace := tr\<rparr>))"

text \<open>\<^verbatim>\<open>C.free\<close> is logged and nothing more. That the C library aborts the process when
  the buffer did not come from \<^verbatim>\<open>C.malloc\<close> (a dataset adopted from the file lives in Go
  memory: lines 161-165, freed by lines 135-137 or by \<^verbatim>\<open>Stop\<close>) or was freed before (a second
  \<^verbatim>\<open>Stop\<close>) is not modelled: in those states \<^verbatim>\<open>updateDAG\<close> and \<^verbatim>\<open>Stop\<close> return in the model
  where the program crashes. Every statement below about them is about the runs that
  return, or concludes a panic.\<close>

text \<open>Lines 144-168: the file is opened and either replaced or adopted. \<^verbatim>\<open>data[0:8]\<close>
  panics when 8 exceeds the capacity, \<^verbatim>\<open>data[8:]\<close> when 8 exceeds the length,
  \<^verbatim>\<open>&data[0]\<close> when nothing follows the header.\<close>

definition loadOrGenerate :: "env \<Rightarrow> uint64 \<Rightarrow> Ethash \<Rightarrow> panic + Ethash" where
  "loadOrGenerate e seedNum s =
     (case disk s of
        None \<Rightarrow> regenerate e seedNum s
      | Some contents \<Rightarrow>
          if ReadAll_fails e then Inl IOError
          else if 8 > length contents + length (ReadAll_spare e) then Inl SliceBoundsOutOfRange
          else
            let num = BigEndian_Uint64 (take 8 (contents @ ReadAll_spare e))
            in if num < seedNum then regenerate e seedNum s
               else if 8 > length contents then Inl SliceBoundsOutOfRange
               else
                 let data = drop 8 contents
                 in if data = [] then Inl IndexOutOfRange
                    else Inr (s\<lparr>dag := Some \<lparr>DAG_SeedBlockNum = PAC_SeedBlockNum (paramsAndCache s),
                                              DAG_dag = data\<rparr>\<rparr>))"

definition updateDAG :: "env \<Rightarrow> Ethash \<Rightarrow> panic + Ethash" where
  "updateDAG e s0 =
     (let s = s0\<lparr>trace := trace s0 @ [Lock cacheMutex, Lock dagMutex]\<rparr>;
          seedNum = GetSeedBlockNum (CurrentBlock_NumberU64 e)
      in if (case dag s of None \<Rightarrow> True | Some d \<Rightarrow> DAG_SeedBlockNum d \<noteq> seedNum) then
           (let s1 = (case dag s of None \<Rightarrow> s
                      | Some d \<Rightarrow> s\<lparr>trace := trace s @ [Call C_free]\<rparr>);
                s2 = s1\<lparr>dag := None\<rparr>
            in case loadOrGenerate e seedNum s2 of
                 Inl err \<Rightarrow> Inl err
               | Inr s3 \<Rightarrow> Inr (s3\<lparr>trace := trace s3 @ [Unlock dagMutex, Unlock cacheMutex]\<rparr>))
         else Inr (s\<lparr>trace := trace s @ [Unlock dagMutex, Unlock cacheMutex]\<rparr>))"

subsection \<open>Construction, accessors, shutdown\<close>

text \<open>\<^verbatim>\<open>New\<close> allocates a zeroed \<^verbatim>\<open>ethash_return_value\<close>; the file and an empty event log
  come with it.\<close>

definition New :: "env \<Rightarrow> bytes option \<Rightarrow> panic + Ethash" where
  "New e file =
     (case makeParamsAndCache e (CurrentBlock_NumberU64 e) [] of
        Inl err \<Rightarrow> Inl err
      | Inr (p, tr) \<Rightarrow>
          Inr \<lparr>turbo = True, HashRate = 0, dag = None, paramsAndCache = p,
               ret = \<lparr>result = replicate 32 0, mix_hash = replicate 32 0\<rparr>,
               disk = file, trace = tr\<rparr>)"

definition DAGSize :: "Ethash \<Rightarrow> nat" where
  "DAGSize s = full_size (params (paramsAndCache s))"

definition CacheSize :: "Ethash \<Rightarrow> nat" where
  "CacheSize s = cache_size (params (paramsAndCache s))"

definition GetSeedHash :: "env \<Rightarrow> uint64 \<Rightarrow> bytes option" where
  "GetSeedHash e blockNum = GetBlockByNumber_SeedHash e (GetSeedBlockNum blockNum)"

text \<open>\<^verbatim>\<open>Stop\<close> reads \<^verbatim>\<open>pow.dag.dag\<close> without a nil check on \<^verbatim>\<open>pow.dag\<close>.\<close>

definition Stop :: "Ethash \<Rightarrow> panic + Ethash" where
  "Stop s0 =
     (let s = s0\<lparr>trace := trace s0 @ [Lock cacheMutex, Lock dagMutex, Call C_free]\<rparr>
      in case dag s of
           None \<Rightarrow> Inl NilPointerDereference
         | Some d \<Rightarrow>
             Inr (s\<lparr>trace := trace s @ [Call C_free, Unlock dagMutex, Unlock cacheMutex]\<rparr>))"

definition GetHashrate :: "Ethash \<Rightarrow> int" where
  "GetHashrate s = HashRate s"

definition Turbo :: "bool \<Rightarrow> Ethash \<Rightarrow> Ethash" where
  "Turbo on s = s\<lparr>turbo := on\<rparr>"

subsection \<open>Mining\<close>

text \<open>
  \<^verbatim>\<open>Search\<close> returns \<^verbatim>\<open>(uint64, []byte, []byte)\<close>. Its loop has no bound, so the loop is
  a partial function: \<open>None\<close> is a search that never returns. \<open>stop i\<close> says whether the
  channel \<^verbatim>\<open>stop\<close> is ready at the \<^verbatim>\<open>select\<close> that is reached after \<open>i\<close> attempts; the
  argument \<open>i\<close> is the source's counter \<^verbatim>\<open>i\<close>. The \<^verbatim>\<open>time.Sleep\<close> of the non-turbo mode
  changes no state.
\<close>

type_synonym search_result = "uint64 \<times> bytes option \<times> bytes option"

partial_function (option) search_loop ::
  "env \<Rightarrow> Block \<Rightarrow> (nat \<Rightarrow> bool) \<Rightarrow> int \<Rightarrow> nat \<Rightarrow> uint64 \<Rightarrow> Ethash \<Rightarrow>
     (panic + (search_result \<times> Ethash)) option" where
  "search_loop e block stop target i nonce s =
     (if stop i then Some (Inr ((0, None, None), s\<lparr>HashRate := 0\<rparr>))
      else
        let s1 = s\<lparr>HashRate := measured_hashes e (i + 1)\<rparr>
        in case dag s1 of
             None \<Rightarrow> Some (Inl NilPointerDereference)
           | Some d \<Rightarrow>
               let r = ethash_full e (DAG_dag d) (params (paramsAndCache s1)) (HashNoNonce block) nonce;
                   s2 = s1\<lparr>ret := r, trace := trace s1 @ [Call C_ethash_full]\<rparr>
               in if Bytes2Big (GoBytes (result r) 32) \<le> target then
                    Some (Inr ((nonce, Some (GoBytes (mix_hash r) 32),
                                GetSeedHash e (NumberU64 block)), s2))
                  else search_loop e block stop target (i + 1) (nonce + 1) s2)"

declare search_loop.simps [code]

text \<open>The two deferred unlocks run in reverse order of their \<^verbatim>\<open>defer\<close> statements.\<close>

definition Search ::
  "env \<Rightarrow> Block \<Rightarrow> (nat \<Rightarrow> bool) \<Rightarrow> Ethash \<Rightarrow> (panic + (search_result \<times> Ethash)) option" where
  "Search e block stop s0 =
     (case updateDAG e s0 of
        Inl err \<Rightarrow> Some (Inl err)
      | Inr s1 \<Rightarrow>
          let s2 = s1\<lparr>trace := trace s1 @ [Lock dagMutex, Lock cacheMutex]\<rparr>;
              miningHash = HashNoNonce block;
              diff = Difficulty block;
              nonce = rand_Int63 e
          in if miningHash = [] then Some (Inl IndexOutOfRange)
             else case big_Div tt256 diff of
                    Inl err \<Rightarrow> Some (Inl err)
                  | Inr target \<Rightarrow>
                      (case search_loop e block stop target 0 nonce s2 of
                         None \<Rightarrow> None
                       | Some (Inl err) \<Rightarrow> Some (Inl err)
                       | Some (Inr (r, s3)) \<Rightarrow>
                           Some (Inr (r, s3\<lparr>trace := trace s3 @
                                                [Unlock dagMutex, Unlock cacheMutex]\<rparr>))))"

definition FullHash :: "env \<Rightarrow> uint64 \<Rightarrow> bytes \<Rightarrow> Ethash \<Rightarrow> panic + (bytes \<times> Ethash)" where
  "FullHash e nonce miningHash s0 =
     (case updateDAG e s0 of
        Inl err \<Rightarrow> Inl err
      | Inr s1 \<Rightarrow>
          let s2 = s1\<lparr>trace := trace s1 @ [Lock dagMutex]\<rparr>
          in if miningHash = [] then Inl IndexOutOfRange
             else case dag s2 of
                    None \<Rightarrow> Inl NilPointerDereference
                  | Some d \<Rightarrow>
                      let r = ethash_full e (DAG_dag d) (params (paramsAndCache s2)) miningHash nonce
                      in Inr (GoBytes (result r) 32,
                              s2\<lparr>ret := r,
                                 trace := trace s2 @ [Call C_ethash_full, Unlock dagMutex]\<rparr>))"

text \<open>\<^verbatim>\<open>LightHash\<close> takes no lock and does not refresh the cache.\<close>

definition LightHash :: "env \<Rightarrow> uint64 \<Rightarrow> bytes \<Rightarrow> Ethash \<Rightarrow> panic + (bytes \<times> Ethash)" where
  "LightHash e nonce miningHash s =
     (if miningHash = [] then Inl IndexOutOfRange
      else
        let r = ethash_light e (cache (paramsAndCache s)) (params (paramsAndCache s))
                  miningHash nonce
        in Inr (GoBytes (result r) 32, s\<lparr>ret := r, trace := trace s @ [Call C_ethash_light]\<rparr>))"

subsection \<open>Verification\<close>

definition verify ::
  "env \<Rightarrow> bytes \<Rightarrow> bytes \<Rightarrow> int \<Rightarrow> uint64 \<Rightarrow> uint64 \<Rightarrow> Ethash \<Rightarrow> panic + (bool \<times> Ethash)" where
  "verify e hash mixDigest difficulty blockNum nonce s =
     (if hash = [] then Inl IndexOutOfRange
      else case big_Div tt256 difficulty of
             Inl err \<Rightarrow> Inl err
           | Inr target \<Rightarrow>
               if GetSeedBlockNum blockNum < PAC_SeedBlockNum (paramsAndCache s) then
                 (case makeParamsAndCache e blockNum (trace s) of
                    Inl err \<Rightarrow> Inl err
                  | Inr (pAc, tr) \<Rightarrow>
                      let r = ethash_light e (cache pAc) (params pAc) hash nonce
                      in Inr (Bytes2Big (GoBytes (result r) 32) \<le> target,
                              s\<lparr>ret := r, trace := tr @ [Call C_ethash_light]\<rparr>))
               else
                 (case updateCache e s of
                    Inl err \<Rightarrow> Inl err
                  | Inr s1 \<Rightarrow>
                      let pAc = paramsAndCache s1;
                          r = ethash_light e (cache pAc) (params pAc) hash nonce
                      in Inr (Bytes2Big (GoBytes (result r) 32) \<le> target,
                              s1\<lparr>ret := r,
                                 trace := trace s1 @
                                   [Lock cacheMutex, Call C_ethash_light, Unlock cacheMutex]\<rparr>)))"

text \<open>\<^verbatim>\<open>bytes.Compare\<close> is 0 exactly when the two slices hold the same bytes.\<close>

definition Verify :: "env \<Rightarrow> Block \<Rightarrow> Ethash \<Rightarrow> panic + (bool \<times> Ethash)" where
  "Verify e block s =
     (if SeedHash block \<noteq> the_bytes (GetSeedHash e (NumberU64 block)) then Inr (False, s)
      else verify e (HashNoNonce block) (MixDigest block) (Difficulty block)
             (NumberU64 block) (Nonce block) s)"

section \<open>Vocabulary of the statements\<close>

text \<open>The number of calls of a C function in an event log.\<close>

definition calls :: "cfun \<Rightarrow> event list \<Rightarrow> nat" where
  "calls f tr = length (filter (\<lambda>ev. ev = Call f) tr)"

text \<open>The digest \<^verbatim>\<open>Search\<close> computes for a nonce (lines 250-251): the 32 bytes of
  \<^verbatim>\<open>pow.ret.result\<close> after \<^verbatim>\<open>ethash_full\<close>, read by \<^verbatim>\<open>Bytes2Big\<close>.\<close>

definition digest_full :: "env \<Rightarrow> Block \<Rightarrow> Ethash \<Rightarrow> uint64 \<Rightarrow> int" where
  "digest_full e block s nonce =
     Bytes2Big (GoBytes (result (ethash_full e (DAG_dag (the (dag s))) (params (paramsAndCache s))
        (HashNoNonce block) nonce)) 32)"

text \<open>The first \<open>n\<close> iterations of the search loop, started with counter \<open>i\<close> and nonce
  \<open>nonce\<close>, neither see the stop signal nor find a digest within the target.\<close>

definition rejected :: "env \<Rightarrow> Block \<Rightarrow> (nat \<Rightarrow> bool) \<Rightarrow> int \<Rightarrow> nat \<Rightarrow> uint64 \<Rightarrow> Ethash \<Rightarrow> nat \<Rightarrow> bool" where
  "rejected e block stop target i nonce s n =
     (\<forall>j<n. \<not> stop (i + j) \<and> \<not> digest_full e block s (nonce + of_nat j) \<le> target)"

text \<open>What holds of a result \<open>y\<close> of the search loop started in state \<open>s\<close>. A panic is the
  nil dataset. Otherwise the loop has left dataset, cache, file and turbo flag alone and
  made \<open>n\<close> calls of \<^verbatim>\<open>ethash_full\<close>; either it was cancelled at its poll number \<open>n\<close>
  and returns \<open>(0, nil, nil)\<close> with hash rate 0, or its last attempt, at nonce
  \<open>nonce + m\<close>, was within the target and every earlier one was not.\<close>

definition loop_post ::
  "env \<Rightarrow> Block \<Rightarrow> (nat \<Rightarrow> bool) \<Rightarrow> int \<Rightarrow> nat \<Rightarrow> uint64 \<Rightarrow> Ethash \<Rightarrow>
     (panic + (search_result \<times> Ethash)) \<Rightarrow> bool" where
  "loop_post e block stop target i nonce s y =
     (case y of
        Inl err \<Rightarrow> err = NilPointerDereference \<and> dag s = None
      | Inr (r, s') \<Rightarrow>
          dag s' = dag s \<and> paramsAndCache s' = paramsAndCache s \<and> disk s' = disk s
          \<and> turbo s' = turbo s
          \<and> (\<exists>n. trace s' = trace s @ replicate n (Call C_ethash_full)
               \<and> ((r = (0, None, None) \<and> stop (i + n) \<and> HashRate s' = 0
                    \<and> rejected e block stop target i nonce s n) \<or>
                   (\<exists>m. n = Suc m \<and> \<not> stop (i + m)
                    \<and> r = (nonce + of_nat m, Some (GoBytes (mix_hash (ret s')) 32),
                           GetSeedHash e (NumberU64 block))
                    \<and> digest_full e block s (nonce + of_nat m) =
                          Bytes2Big (GoBytes (result (ret s')) 32)
                    \<and> Bytes2Big (GoBytes (result (ret s')) 32) \<le> target
                    \<and> rejected e block stop target i nonce s m))))"

text \<open>The epoch \<^verbatim>\<open>updateDAG\<close> reads from the first 8 bytes of the file (line 155).\<close>

definition header :: "env \<Rightarrow> bytes \<Rightarrow> uint64" where
  "header e contents = BigEndian_Uint64 (take 8 (contents @ ReadAll_spare e))"

text \<open>The test of line 134.\<close>

definition needs_update :: "env \<Rightarrow> Ethash \<Rightarrow> bool" where
  "needs_update e s =
     (case dag s of None \<Rightarrow> True
      | Some d \<Rightarrow> DAG_SeedBlockNum d \<noteq> GetSeedBlockNum (CurrentBlock_NumberU64 e))"

text \<open>The \<^verbatim>\<open>C.free\<close> of lines 135-137.\<close>

definition frees :: "Ethash \<Rightarrow> event list" where
  "frees s = (case dag s of None \<Rightarrow> [] | Some d \<Rightarrow> [Call C_free])"

text \<open>The dataset \<^verbatim>\<open>makeDAG\<close> builds from the cache held in \<open>s\<close>.\<close>

definition built :: "env \<Rightarrow> Ethash \<Rightarrow> DAG" where
  "built e s = fst (makeDAG e (paramsAndCache s) [])"

text \<open>The state \<^verbatim>\<open>updateDAG\<close> leaves when it regenerates the dataset and writes the file,
  and the state it leaves when it adopts the file's \<open>contents\<close>.\<close>

definition regenerated :: "env \<Rightarrow> Ethash \<Rightarrow> Ethash" where
  "regenerated e s =
     s\<lparr>dag := Some (built e s),
       disk := Some (BigEndian_PutUint64 (GetSeedBlockNum (CurrentBlock_NumberU64 e)) @
                     GoBytes (DAG_dag (built e s)) (full_size (params (paramsAndCache s)))),
       trace := trace s @ [Lock cacheMutex, Lock dagMutex] @ frees s @
                [Call C_malloc, Call C_ethash_compute_full_data] @
                [Unlock dagMutex, Unlock cacheMutex]\<rparr>"

definition adopted :: "bytes \<Rightarrow> Ethash \<Rightarrow> Ethash" where
  "adopted contents s =
     s\<lparr>dag := Some \<lparr>DAG_SeedBlockNum = PAC_SeedBlockNum (paramsAndCache s),
                     DAG_dag = drop 8 contents\<rparr>,
       trace := trace s @ [Lock cacheMutex, Lock dagMutex] @ frees s @
                [Unlock dagMutex, Unlock cacheMutex]\<rparr>"

text \<open>
  Lock order. \<open>lock_order_ok held tr\<close>: in the log \<open>tr\<close>, started while the mutexes
  \<open>held\<close> are held, \<open>cacheMutex\<close> is never locked while \<open>dagMutex\<close> is held.
  \<open>held_after held tr\<close> are the mutexes held at the end of \<open>tr\<close>.
\<close>

fun lock_order_ok :: "mutex list \<Rightarrow> event list \<Rightarrow> bool" where
  "lock_order_ok held [] = True"
| "lock_order_ok held (Lock m # tr) =
     (\<not> (m = cacheMutex \<and> dagMutex \<in> set held) \<and> lock_order_ok (m # held) tr)"
| "lock_order_ok held (Unlock m # tr) = lock_order_ok (remove1 m held) tr"
| "lock_order_ok held (Call f # tr) = lock_order_ok held tr"

fun held_after :: "mutex list \<Rightarrow> event list \<Rightarrow> mutex list" where
  "held_after held [] = held"
| "held_after held (Lock m # tr) = held_after (m # held) tr"
| "held_after held (Unlock m # tr) = held_after (remove1 m held) tr"
| "held_after held (Call f # tr) = held_after held tr"

text \<open>
  Sizes. The sizing parameters of an epoch are what \<^verbatim>\<open>ethash_params_init\<close> computes from the
  epoch id, which the source passes as \<^verbatim>\<open>C.uint32_t(seedBlockNum)\<close>. \<open>pac_ok\<close>: a cache
  carries the parameters of the epoch it is recorded under and its buffer has their cache
  size. \<open>dag_ok\<close>: a dataset's buffer has the dataset size of the epoch it is recorded
  under. \<open>sizes_match\<close>: both hold of the live cache and of the live dataset, if any.
\<close>

definition pac_ok :: "env \<Rightarrow> ParamsAndCache \<Rightarrow> bool" where
  "pac_ok e p =
     (params p = ethash_params_init e (ucast (PAC_SeedBlockNum p))
      \<and> length (cache p) = cache_size (params p))"

definition dag_ok :: "env \<Rightarrow> DAG \<Rightarrow> bool" where
  "dag_ok e d =
     (length (DAG_dag d) = full_size (ethash_params_init e (ucast (DAG_SeedBlockNum d))))"

definition sizes_match :: "env \<Rightarrow> Ethash \<Rightarrow> bool" where
  "sizes_match e s =
     (pac_ok e (paramsAndCache s) \<and> (case dag s of None \<Rightarrow> True | Some d \<Rightarrow> dag_ok e d))"

section \<open>Example inputs\<close>

text \<open>
  A small environment on which the definitions evaluate: the chain is at height 0, the
  seed hash of block \<open>n\<close> is the two bytes \<open>[n div 30000, 1]\<close>, the sizes of epoch \<open>ep\<close> are
  \<open>4 + ep div 30000\<close> (dataset) and \<open>2 + ep div 30000\<close> (cache), both hash functions
  return the digest \<open>2 ^ 255\<close> (a byte 128 followed by 31 zero bytes), the random nonce is 0.
\<close>

definition ex_env :: env where
  "ex_env = \<lparr>CurrentBlock_NumberU64 = 0,
     GetBlockByNumber_SeedHash = (\<lambda>n. Some [ucast (n div 30000), 1]),
     ethash_params_init = (\<lambda>ep. \<lparr>full_size = 4 + unat ep div 30000, cache_size = 2 + unat ep div 30000\<rparr>),
     ethash_mkcache = (\<lambda>p seed. replicate (cache_size p) (hd seed)),
     ethash_compute_full_data = (\<lambda>p c. replicate (full_size p) (hd c + 16)),
     ethash_full = (\<lambda>d p h n. \<lparr>result = 128 # replicate 31 0, mix_hash = replicate 32 7\<rparr>),
     ethash_light = (\<lambda>c p h n. \<lparr>result = 128 # replicate 31 0, mix_hash = replicate 32 7\<rparr>),
     ReadAll_fails = False, ReadAll_spare = [], Create_fails = False,
     rand_Int63 = 0, measured_hashes = (\<lambda>i. 1000)\<rparr>"

definition ex_env_30001 :: env where
  "ex_env_30001 = ex_env\<lparr>CurrentBlock_NumberU64 := 30001\<rparr>"

definition ex_block :: Block where
  "ex_block = \<lparr>HashNoNonce = [1], Difficulty = 1, NumberU64 = 1, Nonce = 0, MixDigest = [], SeedHash = [0, 1]\<rparr>"

text \<open>\<open>ex_state\<close> is what \<^verbatim>\<open>New\<close> returns in \<open>ex_env\<close> when there is no file;
  \<open>ex_state_30000\<close> is \<open>ex_state\<close> after \<^verbatim>\<open>updateCache\<close> at height 30001;
  \<open>ex_state_dag\<close> is \<open>ex_state\<close> after \<^verbatim>\<open>updateDAG\<close> at height 0; \<open>ex_state_found\<close> is the
  state in which \<^verbatim>\<open>Search\<close> returns its first nonce.\<close>

definition ex_state :: Ethash where
  "ex_state = \<lparr>turbo = True, HashRate = 0, dag = None,
         paramsAndCache =
           \<lparr>params = \<lparr>full_size = 4, cache_size = 2\<rparr>, cache = [0, 0],
              PAC_SeedBlockNum = 0\<rparr>,
         ret = \<lparr>result = replicate 32 0, mix_hash = replicate 32 0\<rparr>, disk = None,
         trace = [Call C_ethash_params_init, Call C_malloc, Call C_ethash_mkcache]\<rparr>"

definition ex_state_30000 :: Ethash where
  "ex_state_30000 = ex_state
     \<lparr>paramsAndCache := \<lparr>params = \<lparr>full_size = 5, cache_size = 3\<rparr>, cache = [1, 1, 1],
                          PAC_SeedBlockNum = 30000\<rparr>,
      trace := trace ex_state @ [Lock cacheMutex, Call C_ethash_params_init, Call C_malloc,
                                 Call C_ethash_mkcache, Unlock cacheMutex]\<rparr>"

definition ex_state_dag :: Ethash where
  "ex_state_dag = ex_state
     \<lparr>dag := Some \<lparr>DAG_SeedBlockNum = 0, DAG_dag = [16, 16, 16, 16]\<rparr>,
      disk := Some [0, 0, 0, 0, 0, 0, 0, 0, 16, 16, 16, 16],
      trace := trace ex_state @ [Lock cacheMutex, Lock dagMutex, Call C_malloc,
                 Call C_ethash_compute_full_data, Unlock dagMutex, Unlock cacheMutex]\<rparr>"

definition ex_state_found :: Ethash where
  "ex_state_found = ex_state_dag
     \<lparr>HashRate := 1000,
      ret := \<lparr>result = 128 # replicate 31 0, mix_hash = replicate 32 7\<rparr>,
      trace := trace ex_state_dag @ [Lock dagMutex, Lock cacheMutex, Call C_ethash_full,
                 Unlock dagMutex, Unlock cacheMutex]\<rparr>"

text \<open>A block of difficulty 4, whose target \<open>2 ^ 254\<close> the digest \<open>2 ^ 255\<close> never meets, and
  a stop signal that is ready at the third poll.\<close>

definition ex_block4 :: Block where
  "ex_block4 = ex_block\<lparr>Difficulty := 4\<rparr>"

definition ex_stop :: "nat \<Rightarrow> bool" where
  "ex_stop i = (i = 2)"

text \<open>A block of difficulty 2 whose seed hash is the one of its epoch, and \<open>ex_state\<close> after
  \<^verbatim>\<open>Verify\<close> has run \<^verbatim>\<open>ethash_light\<close> on it.\<close>

definition ex_block2 :: Block where
  "ex_block2 = ex_block\<lparr>Difficulty := 2\<rparr>"

definition ex_state_verified :: Ethash where
  "ex_state_verified = ex_state
     \<lparr>ret := \<lparr>result = 128 # replicate 31 0, mix_hash = replicate 32 7\<rparr>,
      trace := trace ex_state @ [Lock cacheMutex, Unlock cacheMutex,
                                 Lock cacheMutex, Call C_ethash_light, Unlock cacheMutex]\<rparr>"

text \<open>\<open>ex_state_file\<close>: \<open>ex_state\<close> with a file whose header is the epoch 30000, followed by
  five bytes (the dataset size of epoch 30000); \<open>ex_state_adopted\<close>: the state after
  \<^verbatim>\<open>updateDAG\<close> at height 0 has adopted it. \<open>ex_state_stale\<close>: \<open>ex_state\<close>, whose cache is of
  epoch 0, after \<^verbatim>\<open>updateDAG\<close> at height 30001. \<open>ex_state_short\<close> has a file of three bytes,
  \<open>ex_state_empty\<close> an empty file; in \<open>ex_env_spare\<close> the chain is at height 30001 and the
  slice \<^verbatim>\<open>ioutil.ReadAll\<close> returns has eight spare zero bytes of capacity.\<close>

definition ex_state_file :: Ethash where
  "ex_state_file = ex_state\<lparr>disk := Some [0, 0, 0, 0, 0, 0, 117, 48, 9, 9, 9, 9, 9]\<rparr>"

definition ex_state_adopted :: Ethash where
  "ex_state_adopted = ex_state_file
     \<lparr>dag := Some \<lparr>DAG_SeedBlockNum = 0, DAG_dag = [9, 9, 9, 9, 9]\<rparr>,
      trace := trace ex_state_file @
                 [Lock cacheMutex, Lock dagMutex, Unlock dagMutex, Unlock cacheMutex]\<rparr>"

definition ex_state_stale :: Ethash where
  "ex_state_stale = ex_state
     \<lparr>dag := Some \<lparr>DAG_SeedBlockNum = 0, DAG_dag = [16, 16, 16, 16]\<rparr>,
      disk := Some [0, 0, 0, 0, 0, 0, 117, 48, 16, 16, 16, 16],
      trace := trace ex_state @ [Lock cacheMutex, Lock dagMutex, Call C_malloc,
                 Call C_ethash_compute_full_data, Unlock dagMutex, Unlock cacheMutex]\<rparr>"

definition ex_state_short :: Ethash where
  "ex_state_short = ex_state\<lparr>disk := Some [1, 2, 3]\<rparr>"

definition ex_state_empty :: Ethash where
  "ex_state_empty = ex_state\<lparr>disk := Some []\<rparr>"

definition ex_env_spare :: env where
  "ex_env_spare = ex_env_30001\<lparr>ReadAll_spare := [0, 0, 0, 0, 0, 0, 0, 0]\<rparr>"

section \<open>Theorems\<close>

subsection \<open>Epoch of a block height\<close>

lemma unat_epochLength: "unat epochLength = 30000"
  by (simp add: epochLength_def)

lemma unat_GetSeedBlockNum:
  "unat (GetSeedBlockNum h) =
     (if unat h \<le> 30000 then 0 else ((unat h - 1) div 30000) * 30000)"
proof (cases "h > epochLength")
  case False
  then have "unat h \<le> 30000"
    by (simp add: word_less_nat_alt unat_epochLength)
  with False show ?thesis by (simp add: GetSeedBlockNum_def)
next
  case True
  then have big: "30000 < unat h"
    by (simp add: word_less_nat_alt unat_epochLength)
  then have h1: "1 \<le> h"
    by (simp add: word_le_nat_alt)
  have sub: "unat (h - 1) = unat h - 1"
    using h1 by (simp add: unat_sub)
  have dv: "unat ((h - 1) div epochLength) = (unat h - 1) div 30000"
    by (simp add: unat_div sub unat_epochLength)
  have bound: "(unat h - 1) div 30000 * 30000 < 2 ^ 64"
  proof -
    have "(unat h - 1) div 30000 * 30000 \<le> unat h - 1" by simp
    also have "\<dots> < 2 ^ 64" using unsigned_less [of h, where ?'a = nat] by simp
    finally show ?thesis .
  qed
  have "unat (((h - 1) div epochLength) * epochLength) = (unat h - 1) div 30000 * 30000"
    using bound by (simp add: unat_mult_lem [THEN iffD1] dv unat_epochLength)
  with True big show ?thesis by (simp add: GetSeedBlockNum_def)
qed

subsection \<open>Event logs\<close>

lemma calls_append: "calls f (a @ b) = calls f a + calls f b"
  by (simp add: calls_def)

lemma calls_replicate: "calls f (replicate n (Call g)) = (if f = g then n else 0)"
  by (induction n) (auto simp: calls_def)

lemma calls_simps:
  "calls f [] = 0"
  "calls f (Lock m # tr) = calls f tr"
  "calls f (Unlock m # tr) = calls f tr"
  "calls f (Call g # tr) = (if f = g then Suc (calls f tr) else calls f tr)"
  by (auto simp: calls_def)

subsection \<open>The search loop\<close>

lemma rejected_0: "rejected e block stop target i nonce s 0"
  by (simp add: rejected_def)

lemma rejected_Suc:
  assumes "\<not> stop i" "\<not> digest_full e block s nonce \<le> target"
    and "dag s2 = dag s" "paramsAndCache s2 = paramsAndCache s"
    and "rejected e block stop target (i + 1) (nonce + 1) s2 n"
  shows "rejected e block stop target i nonce s (Suc n)"
  unfolding rejected_def
proof (intro allI impI)
  fix j assume j: "j < Suc n"
  show "\<not> stop (i + j) \<and> \<not> digest_full e block s (nonce + of_nat j) \<le> target"
  proof (cases j)
    case 0
    with assms(1,2) show ?thesis by simp
  next
    case (Suc k)
    with j have "k < n" by simp
    with assms(5) have "\<not> stop (i + 1 + k) \<and> \<not> digest_full e block s2 (nonce + 1 + of_nat k) \<le> target"
      by (simp add: rejected_def)
    moreover have "digest_full e block s2 (nonce + 1 + of_nat k) = digest_full e block s (nonce + of_nat j)"
      using assms(3,4) Suc by (simp add: digest_full_def ac_simps)
    ultimately show ?thesis using Suc by simp
  qed
qed

lemma search_loop_stop:
  "stop i \<Longrightarrow> search_loop e block stop target i nonce s =
      Some (Inr ((0, None, None), s\<lparr>HashRate := 0\<rparr>))"
  by (subst search_loop.simps) simp

lemma search_loop_reject:
  "\<not> stop i \<Longrightarrow> dag s = Some d \<Longrightarrow> \<not> digest_full e block s nonce \<le> target \<Longrightarrow>
   search_loop e block stop target i nonce s =
   search_loop e block stop target (i + 1) (nonce + 1)
     (s\<lparr>HashRate := measured_hashes e (i + 1),
        ret := ethash_full e (DAG_dag d) (params (paramsAndCache s)) (HashNoNonce block) nonce,
        trace := trace s @ [Call C_ethash_full]\<rparr>)"
  by (subst search_loop.simps) (simp add: digest_full_def Let_def)

lemma search_loop_accept:
  "\<not> stop i \<Longrightarrow> dag s = Some d \<Longrightarrow> digest_full e block s nonce \<le> target \<Longrightarrow>
   search_loop e block stop target i nonce s =
   Some (Inr ((nonce,
               Some (GoBytes (mix_hash (ethash_full e (DAG_dag d) (params (paramsAndCache s)) (HashNoNonce block) nonce)) 32),
               GetSeedHash e (NumberU64 block)),
     (s\<lparr>HashRate := measured_hashes e (i + 1),
        ret := ethash_full e (DAG_dag d) (params (paramsAndCache s)) (HashNoNonce block) nonce,
        trace := trace s @ [Call C_ethash_full]\<rparr>)))"
  by (subst search_loop.simps) (simp add: digest_full_def Let_def)

lemma search_loop_nil:
  "\<not> stop i \<Longrightarrow> dag s = None \<Longrightarrow> search_loop e block stop target i nonce s = Some (Inl NilPointerDereference)"
  by (subst search_loop.simps) (simp add: Let_def)

lemma digest_full_cong:
  "dag s' = dag s \<Longrightarrow> paramsAndCache s' = paramsAndCache s \<Longrightarrow>
   digest_full e block s' n = digest_full e block s n"
  by (simp add: digest_full_def)

lemma search_loop_cancel_after:
  "dag s = Some d \<Longrightarrow>
   (\<forall>j<k. \<not> stop (i + j) \<and> \<not> digest_full e block s (nonce + of_nat j) \<le> target) \<Longrightarrow>
   stop (i + k) \<Longrightarrow>
   \<exists>s'. search_loop e block stop target i nonce s = Some (Inr ((0, None, None), s'))
       \<and> HashRate s' = 0 \<and> trace s' = trace s @ replicate k (Call C_ethash_full)
       \<and> dag s' = dag s \<and> paramsAndCache s' = paramsAndCache s \<and> disk s' = disk s"
proof (induction k arbitrary: i nonce s)
  case 0
  then show ?case by (simp add: search_loop_stop)
next
  case (Suc k)
  let ?s2 = "s\<lparr>HashRate := measured_hashes e (i + 1),
        ret := ethash_full e (DAG_dag d) (params (paramsAndCache s)) (HashNoNonce block) nonce,
        trace := trace s @ [Call C_ethash_full]\<rparr>"
  from Suc.prems(2) [rule_format, of 0]
  have ns: "\<not> stop i" and nd: "\<not> digest_full e block s nonce \<le> target"
    by simp_all
  have step: "search_loop e block stop target i nonce s =
        search_loop e block stop target (i + 1) (nonce + 1) ?s2"
    using ns Suc.prems(1) nd by (rule search_loop_reject)
  have d2: "dag ?s2 = Some d" using Suc.prems(1) by simp
  have rest: "\<forall>j<k. \<not> stop (i + 1 + j) \<and> \<not> digest_full e block ?s2 (nonce + 1 + of_nat j) \<le> target"
  proof (intro allI impI)
    fix j assume "j < k"
    then have "Suc j < Suc k" by simp
    with Suc.prems(2) have "\<not> stop (i + Suc j) \<and> \<not> digest_full e block s (nonce + of_nat (Suc j)) \<le> target"
      by blast
    moreover have "digest_full e block ?s2 (nonce + 1 + of_nat j) = digest_full e block s (nonce + of_nat (Suc j))"
      by (simp add: digest_full_def ac_simps)
    ultimately show "\<not> stop (i + 1 + j) \<and> \<not> digest_full e block ?s2 (nonce + 1 + of_nat j) \<le> target"
      by simp
  qed
  have st: "stop (i + 1 + k)" using Suc.prems(3) by simp
  from Suc.IH [OF d2 rest st] obtain s' where
    "search_loop e block stop target (i + 1) (nonce + 1) ?s2 = Some (Inr ((0, None, None), s'))"
    "HashRate s' = 0" "trace s' = trace ?s2 @ replicate k (Call C_ethash_full)"
    "dag s' = dag ?s2" "paramsAndCache s' = paramsAndCache ?s2" "disk s' = disk ?s2"
    by blast
  then show ?case unfolding step by (intro exI [of _ s']) (simp add: replicate_append_same)
qed

lemma search_loop_returns:
  assumes "search_loop e block stop target i nonce s = Some y"
  shows "loop_post e block stop target i nonce s y"
proof (rule search_loop.raw_induct [where P = loop_post, OF _ assms], goal_cases)
  case (1 loop e block stop target i nonce s y)
  show ?case
  proof (cases "stop i")
    case True
    with 1(2) have "y = Inr ((0, None, None), s\<lparr>HashRate := 0\<rparr>)" by simp
    with True show ?thesis
      by (auto simp: loop_post_def rejected_0 intro: exI [of _ 0])
  next
    case ns: False
    show ?thesis
    proof (cases "dag s")
      case None
      with ns 1(2) show ?thesis by (auto simp: Let_def loop_post_def)
    next
      case (Some d)
      let ?r = "ethash_full e (DAG_dag d) (params (paramsAndCache s)) (HashNoNonce block) nonce"
      let ?s2 = "s\<lparr>HashRate := measured_hashes e (i + 1), ret := ?r,
                    trace := trace s @ [Call C_ethash_full]\<rparr>"
      have dg0: "digest_full e block s nonce = Bytes2Big (GoBytes (result ?r) 32)"
        using Some by (simp add: digest_full_def)
      show ?thesis
      proof (cases "Bytes2Big (GoBytes (result ?r) 32) \<le> target")
        case True
        with ns Some 1(2) have y: "y = Inr ((nonce, Some (GoBytes (mix_hash ?r) 32),
                                GetSeedHash e (NumberU64 block)), ?s2)"
          by (simp add: Let_def)
        show ?thesis unfolding y loop_post_def using True ns dg0
          by simp (rule exI [of _ "Suc 0"], simp add: rejected_0)
      next
        case False
        with ns Some 1(2) have rec: "loop e block stop target (i + 1) (nonce + 1) ?s2 = Some y"
          by (simp add: Let_def)
        note ih = 1(1) [OF rec]
        from False dg0 have nd: "\<not> digest_full e block s nonce \<le> target" by simp
        show ?thesis
        proof (cases y)
          case (Inl err)
          with ih Some show ?thesis by (simp add: loop_post_def)
        next
          case (Inr p)
          obtain r s' where p: "p = (r, s')" by (cases p)
          from ih Inr p obtain n where
            fr: "dag s' = dag ?s2" "paramsAndCache s' = paramsAndCache ?s2" "disk s' = disk ?s2"
                "turbo s' = turbo ?s2"
            and tr: "trace s' = trace ?s2 @ replicate n (Call C_ethash_full)"
            and alt: "(r = (0, None, None) \<and> stop (i + 1 + n) \<and> HashRate s' = 0
                    \<and> rejected e block stop target (i + 1) (nonce + 1) ?s2 n) \<or>
                   (\<exists>m. n = Suc m \<and> \<not> stop (i + 1 + m)
                    \<and> r = (nonce + 1 + of_nat m, Some (GoBytes (mix_hash (ret s')) 32),
                           GetSeedHash e (NumberU64 block))
                    \<and> digest_full e block ?s2 (nonce + 1 + of_nat m) =
                          Bytes2Big (GoBytes (result (ret s')) 32)
                    \<and> Bytes2Big (GoBytes (result (ret s')) 32) \<le> target
                    \<and> rejected e block stop target (i + 1) (nonce + 1) ?s2 m)"
            by (auto simp: loop_post_def)
          have tr': "trace s' = trace s @ replicate (Suc n) (Call C_ethash_full)"
            using tr by simp
          have rj: "rejected e block stop target i nonce s (Suc k)"
            if "rejected e block stop target (i + 1) (nonce + 1) ?s2 k" for k
            using ns nd _ _ that by (rule rejected_Suc) simp_all
          have dg: "digest_full e block ?s2 (nonce + 1 + of_nat m) =
                    digest_full e block s (nonce + of_nat (Suc m))" for m
            by (simp add: digest_full_def ac_simps)
          from alt show ?thesis
          proof
            assume c: "r = (0, None, None) \<and> stop (i + 1 + n) \<and> HashRate s' = 0
                    \<and> rejected e block stop target (i + 1) (nonce + 1) ?s2 n"
            then have "rejected e block stop target i nonce s (Suc n)" by (simp add: rj)
            with c fr tr' show ?thesis unfolding Inr p loop_post_def
              by simp (rule exI [of _ "Suc n"], simp)
          next
            assume "\<exists>m. n = Suc m \<and> \<not> stop (i + 1 + m)
                    \<and> r = (nonce + 1 + of_nat m, Some (GoBytes (mix_hash (ret s')) 32),
                           GetSeedHash e (NumberU64 block))
                    \<and> digest_full e block ?s2 (nonce + 1 + of_nat m) =
                          Bytes2Big (GoBytes (result (ret s')) 32)
                    \<and> Bytes2Big (GoBytes (result (ret s')) 32) \<le> target
                    \<and> rejected e block stop target (i + 1) (nonce + 1) ?s2 m"
            then obtain m where m: "n = Suc m" "\<not> stop (i + 1 + m)"
                "r = (nonce + 1 + of_nat m, Some (GoBytes (mix_hash (ret s')) 32),
                           GetSeedHash e (NumberU64 block))"
                "digest_full e block ?s2 (nonce + 1 + of_nat m) =
                          Bytes2Big (GoBytes (result (ret s')) 32)"
                "Bytes2Big (GoBytes (result (ret s')) 32) \<le> target"
                "rejected e block stop target (i + 1) (nonce + 1) ?s2 m"
              by blast
            have r': "r = (nonce + of_nat (Suc m), Some (GoBytes (mix_hash (ret s')) 32),
                           GetSeedHash e (NumberU64 block))"
              using m(3) by (simp add: ac_simps)
            have d': "digest_full e block s (nonce + of_nat (Suc m)) =
                          Bytes2Big (GoBytes (result (ret s')) 32)"
              using m(4) dg by simp
            have s': "\<not> stop (i + Suc m)" using m(2) by simp
            have "rejected e block stop target i nonce s (Suc m)" using m(6) by (rule rj)
            with r' d' s' m(1,5) fr tr' show ?thesis unfolding Inr p loop_post_def
              by simp (rule exI [of _ "Suc n"], simp)
          qed
        qed
      qed
    qed
  qed
qed

subsection \<open>The cases of \<^verbatim>\<open>updateDAG\<close>\<close>

lemma regenerate_eq:
  "regenerate e n s =
     (if Create_fails e then Inl IOError
      else Inr (s\<lparr>dag := Some (built e s),
                  trace := trace s @ [Call C_malloc, Call C_ethash_compute_full_data],
                  disk := Some (BigEndian_PutUint64 n @
                     GoBytes (DAG_dag (built e s)) (full_size (params (paramsAndCache s))))\<rparr>))"
  by (simp add: regenerate_def makeDAG_def writeDagToDisk_def built_def)

lemma updateDAG_current:
  "\<not> needs_update e s \<Longrightarrow>
   updateDAG e s = Inr (s\<lparr>trace := trace s @
       [Lock cacheMutex, Lock dagMutex, Unlock dagMutex, Unlock cacheMutex]\<rparr>)"
  by (auto simp: updateDAG_def needs_update_def Let_def split: option.splits)

lemma updateDAG_missing:
  "needs_update e s \<Longrightarrow> disk s = None \<Longrightarrow>
   updateDAG e s = (if Create_fails e then Inl IOError else Inr (regenerated e s))"
  by (auto simp: updateDAG_def needs_update_def Let_def loadOrGenerate_def regenerate_eq
        regenerated_def frees_def built_def split: option.splits)

lemma updateDAG_stale:
  "needs_update e s \<Longrightarrow> disk s = Some c \<Longrightarrow> \<not> ReadAll_fails e \<Longrightarrow>
   8 \<le> length c + length (ReadAll_spare e) \<Longrightarrow>
   header e c < GetSeedBlockNum (CurrentBlock_NumberU64 e) \<Longrightarrow>
   updateDAG e s = (if Create_fails e then Inl IOError else Inr (regenerated e s))"
  by (auto simp: updateDAG_def needs_update_def Let_def loadOrGenerate_def regenerate_eq
        regenerated_def frees_def built_def header_def split: option.splits)

lemma updateDAG_adopt:
  "needs_update e s \<Longrightarrow> disk s = Some c \<Longrightarrow> \<not> ReadAll_fails e \<Longrightarrow>
   8 < length c \<Longrightarrow>
   \<not> header e c < GetSeedBlockNum (CurrentBlock_NumberU64 e) \<Longrightarrow>
   updateDAG e s = Inr (adopted c s)"
  by (auto simp: updateDAG_def needs_update_def Let_def loadOrGenerate_def
        adopted_def frees_def header_def split: option.splits)

lemma updateDAG_short:
  "needs_update e s \<Longrightarrow> disk s = Some c \<Longrightarrow> length c \<le> 8 \<Longrightarrow>
   \<not> header e c < GetSeedBlockNum (CurrentBlock_NumberU64 e) \<Longrightarrow>
   \<exists>p. updateDAG e s = Inl p"
  by (auto simp: updateDAG_def needs_update_def Let_def loadOrGenerate_def
        header_def split: option.splits)

lemma updateDAG_Inr_cases:
  assumes "updateDAG e s = Inr s'"
  shows "(\<not> needs_update e s \<and> s' = s\<lparr>trace := trace s @
             [Lock cacheMutex, Lock dagMutex, Unlock dagMutex, Unlock cacheMutex]\<rparr>)
       \<or> (needs_update e s \<and> \<not> Create_fails e \<and> s' = regenerated e s \<and>
            (disk s = None \<or>
             (\<exists>c. disk s = Some c \<and> header e c < GetSeedBlockNum (CurrentBlock_NumberU64 e))))
       \<or> (needs_update e s \<and>
            (\<exists>c. disk s = Some c \<and> 8 < length c \<and> s' = adopted c s \<and>
                 \<not> header e c < GetSeedBlockNum (CurrentBlock_NumberU64 e)))"
proof (cases "needs_update e s")
  case False
  with assms show ?thesis by (simp add: updateDAG_current)
next
  case nu: True
  show ?thesis
  proof (cases "disk s")
    case None
    with nu assms show ?thesis by (simp add: updateDAG_missing split: if_splits)
  next
    case (Some c)
    have nf: "\<not> ReadAll_fails e" and cap: "8 \<le> length c + length (ReadAll_spare e)"
      using assms nu Some
      by (auto simp: updateDAG_def needs_update_def Let_def loadOrGenerate_def
            split: option.splits if_splits)
    show ?thesis
    proof (cases "header e c < GetSeedBlockNum (CurrentBlock_NumberU64 e)")
      case True
      with nu Some nf cap assms show ?thesis
        by (simp add: updateDAG_stale split: if_splits)
    next
      case False
      have "8 < length c"
      proof (rule ccontr)
        assume "\<not> 8 < length c"
        then have "length c \<le> 8" by simp
        from updateDAG_short [OF nu Some this False] assms show False by auto
      qed
      with nu Some nf False assms show ?thesis
        by (simp add: updateDAG_adopt)
    qed
  qed
qed

subsection \<open>Lock order\<close>

lemma held_after_append: "held_after h (a @ b) = held_after (held_after h a) b"
  by (induction h a rule: held_after.induct) simp_all

lemma lock_order_ok_append:
  "lock_order_ok h (a @ b) = (lock_order_ok h a \<and> lock_order_ok (held_after h a) b)"
  by (induction h a rule: lock_order_ok.induct) auto

lemma held_after_calls: "held_after h (map Call cs) = h"
  by (induction cs) simp_all

lemma lock_order_ok_calls: "lock_order_ok h (map Call cs)"
  by (induction cs) simp_all

lemma frees_calls: "\<exists>cs. frees s = map Call cs"
  by (cases "dag s") (auto simp: frees_def intro: exI [of _ "[]"] exI [of _ "[C_free]"])

lemma updateDAG_trace:
  assumes "updateDAG e s = Inr s'"
  shows "\<exists>cs. trace s' = trace s @ [Lock cacheMutex, Lock dagMutex] @ map Call cs @
                 [Unlock dagMutex, Unlock cacheMutex]"
proof -
  obtain fs where fs: "frees s = map Call fs" using frees_calls by blast
  from updateDAG_Inr_cases [OF assms]
  have "s' = s\<lparr>trace := trace s @
             [Lock cacheMutex, Lock dagMutex, Unlock dagMutex, Unlock cacheMutex]\<rparr>
        \<or> s' = regenerated e s \<or> (\<exists>c. s' = adopted c s)"
    by blast
  then show ?thesis
  proof (elim disjE exE)
    assume "s' = s\<lparr>trace := trace s @
             [Lock cacheMutex, Lock dagMutex, Unlock dagMutex, Unlock cacheMutex]\<rparr>"
    then show ?thesis by (intro exI [of _ "[]"]) simp
  next
    assume "s' = regenerated e s"
    then show ?thesis
      by (intro exI [of _ "fs @ [C_malloc, C_ethash_compute_full_data]"])
         (simp add: regenerated_def fs)
  next
    fix c assume "s' = adopted c s"
    then show ?thesis by (intro exI [of _ fs]) (simp add: adopted_def fs)
  qed
qed

lemma updateDAG_frame:
  assumes "updateDAG e s = Inr s'"
  shows "paramsAndCache s' = paramsAndCache s \<and> turbo s' = turbo s \<and>
         HashRate s' = HashRate s \<and> ret s' = ret s"
  using updateDAG_Inr_cases [OF assms]
  by (auto simp: regenerated_def adopted_def)

lemma updateDAG_dag:
  assumes "updateDAG e s = Inr s'"
  shows "\<exists>d. dag s' = Some d"
  using updateDAG_Inr_cases [OF assms]
  by (auto simp: regenerated_def adopted_def needs_update_def split: option.splits)

lemma updateDAG_lock_order:
  assumes "updateDAG e s = Inr s'" "held_after [] (trace s) = []" "lock_order_ok [] (trace s)"
  shows "lock_order_ok [] (trace s') \<and> held_after [] (trace s') = []"
proof -
  from updateDAG_trace [OF assms(1)] obtain cs where
    "trace s' = trace s @ [Lock cacheMutex, Lock dagMutex] @ map Call cs @
                 [Unlock dagMutex, Unlock cacheMutex]" by blast
  then show ?thesis using assms(2,3)
    by (simp add: lock_order_ok_append held_after_append held_after_calls lock_order_ok_calls)
qed

subsection \<open>\<^verbatim>\<open>Search\<close>, \<^verbatim>\<open>updateCache\<close>, the target\<close>

lemma Search_Inr:
  assumes "Search e block stop s0 = Some (Inr (r, s'))"
  shows "\<exists>s1 target s3. updateDAG e s0 = Inr s1 \<and> HashNoNonce block \<noteq> [] \<and>
           big_Div tt256 (Difficulty block) = Inr target \<and>
           search_loop e block stop target 0 (rand_Int63 e)
             (s1\<lparr>trace := trace s1 @ [Lock dagMutex, Lock cacheMutex]\<rparr>) = Some (Inr (r, s3)) \<and>
           s' = s3\<lparr>trace := trace s3 @ [Unlock dagMutex, Unlock cacheMutex]\<rparr>"
  using assms
  by (auto simp: Search_def Let_def split: sum.splits if_splits option.splits)

lemma updateCache_current:
  "PAC_SeedBlockNum (paramsAndCache s) = GetSeedBlockNum (CurrentBlock_NumberU64 e) \<Longrightarrow>
   updateCache e s = Inr (s\<lparr>trace := trace s @ [Lock cacheMutex, Unlock cacheMutex]\<rparr>)"
  by (simp add: updateCache_def)

lemma makeParamsAndCache_epoch:
  "makeParamsAndCache e h tr = Inr (p, tr') \<Longrightarrow> PAC_SeedBlockNum p = GetSeedBlockNum h"
  by (auto simp: makeParamsAndCache_def Let_def split: if_splits)

lemma updateCache_epoch:
  "updateCache e s = Inr s' \<Longrightarrow>
   PAC_SeedBlockNum (paramsAndCache s') = GetSeedBlockNum (CurrentBlock_NumberU64 e)"
  by (auto simp: updateCache_def makeParamsAndCache_def Let_def split: if_splits)

lemma updateCache_calls:
  "updateCache e s = Inr s' \<Longrightarrow>
   calls C_ethash_mkcache (trace s') = calls C_ethash_mkcache (trace s) +
     (if PAC_SeedBlockNum (paramsAndCache s) = GetSeedBlockNum (CurrentBlock_NumberU64 e)
      then 0 else 1)"
  by (auto simp: updateCache_def makeParamsAndCache_def Let_def calls_append calls_simps
        split: if_splits)

lemma big_Div_pos: "0 < d \<Longrightarrow> big_Div tt256 d = Inr (2 ^ 256 div d)"
  by (simp add: big_Div_def tt256_def)

lemma search_loop_cancel_at:
  assumes "dag s = Some d" and "rejected e block stop target i nonce s k" and "stop (i + k)"
  shows "\<exists>s'. search_loop e block stop target i nonce s = Some (Inr ((0, None, None), s'))
       \<and> HashRate s' = 0 \<and> trace s' = trace s @ replicate k (Call C_ethash_full)
       \<and> dag s' = dag s \<and> paramsAndCache s' = paramsAndCache s \<and> disk s' = disk s"
  using assms search_loop_cancel_after [of s d k "stop" i e block nonce target]
  by (simp add: rejected_def)

lemma Search_result_shape:
  assumes "Search e block stop s0 = Some (Inr (r, s'))"
  shows "(r = (0, None, None) \<and> HashRate s' = 0 \<and> (\<exists>k. stop k))
       \<or> (\<exists>m. r = (rand_Int63 e + of_nat m, Some (GoBytes (mix_hash (ret s')) 32),
                     GetSeedHash e (NumberU64 block)))"
proof -
  from Search_Inr [OF assms] obtain s1 target s3 where
    l: "search_loop e block stop target 0 (rand_Int63 e)
             (s1\<lparr>trace := trace s1 @ [Lock dagMutex, Lock cacheMutex]\<rparr>) = Some (Inr (r, s3))"
    and s': "s' = s3\<lparr>trace := trace s3 @ [Unlock dagMutex, Unlock cacheMutex]\<rparr>"
    by blast
  from search_loop_returns [OF l]
  have "(r = (0, None, None) \<and> HashRate s3 = 0 \<and> (\<exists>k. stop k))
       \<or> (\<exists>m. r = (rand_Int63 e + of_nat m, Some (GoBytes (mix_hash (ret s3)) 32),
                     GetSeedHash e (NumberU64 block)))"
    unfolding loop_post_def by simp blast
  then show ?thesis by (simp add: s')
qed

lemma rejected_cong:
  "dag s2 = dag s \<Longrightarrow> paramsAndCache s2 = paramsAndCache s \<Longrightarrow>
   rejected e block stop target i nonce s2 n = rejected e block stop target i nonce s n"
  by (simp add: rejected_def digest_full_def)

lemma verify_Inr:
  assumes "verify e h m d bn n s = Inr (b, s')"
  shows "\<exists>t. big_Div tt256 d = Inr t \<and> b = (Bytes2Big (GoBytes (result (ret s')) 32) \<le> t)"
  using assms
  by (auto simp: verify_def Let_def split: if_splits sum.splits prod.splits)

lemma Search_found:
  assumes "Search e block stop s0 = Some (Inr (r, s'))" and "r \<noteq> (0, None, None)"
  shows "\<exists>t m. big_Div tt256 (Difficulty block) = Inr t
           \<and> r = (rand_Int63 e + of_nat m, Some (GoBytes (mix_hash (ret s')) 32),
                  GetSeedHash e (NumberU64 block))
           \<and> digest_full e block s' (rand_Int63 e + of_nat m) =
               Bytes2Big (GoBytes (result (ret s')) 32)
           \<and> Bytes2Big (GoBytes (result (ret s')) 32) \<le> t
           \<and> rejected e block stop t 0 (rand_Int63 e) s' m \<and> \<not> stop m"
proof -
  from Search_Inr [OF assms(1)] obtain s1 t s3 where
    bd: "big_Div tt256 (Difficulty block) = Inr t"
    and l: "search_loop e block stop t 0 (rand_Int63 e)
             (s1\<lparr>trace := trace s1 @ [Lock dagMutex, Lock cacheMutex]\<rparr>) = Some (Inr (r, s3))"
    and s': "s' = s3\<lparr>trace := trace s3 @ [Unlock dagMutex, Unlock cacheMutex]\<rparr>"
    by blast
  let ?s2 = "s1\<lparr>trace := trace s1 @ [Lock dagMutex, Lock cacheMutex]\<rparr>"
  from search_loop_returns [OF l] assms(2) obtain m where
    fr: "dag s3 = dag ?s2" "paramsAndCache s3 = paramsAndCache ?s2"
    and m: "\<not> stop (0 + m)"
      "r = (rand_Int63 e + of_nat m, Some (GoBytes (mix_hash (ret s3)) 32),
           GetSeedHash e (NumberU64 block))"
      "digest_full e block ?s2 (rand_Int63 e + of_nat m) = Bytes2Big (GoBytes (result (ret s3)) 32)"
      "Bytes2Big (GoBytes (result (ret s3)) 32) \<le> t"
      "rejected e block stop t 0 (rand_Int63 e) ?s2 m"
    unfolding loop_post_def by auto
  have c1: "dag s' = dag ?s2" and c2: "paramsAndCache s' = paramsAndCache ?s2"
    using fr by (simp_all add: s')
  have dg: "digest_full e block s' (rand_Int63 e + of_nat m) =
            digest_full e block ?s2 (rand_Int63 e + of_nat m)"
    using c1 c2 by (rule digest_full_cong)
  have rj: "rejected e block stop t 0 (rand_Int63 e) s' m"
    using m(5) rejected_cong [OF c1 c2] by simp
  have r': "ret s' = ret s3" by (simp add: s')
  from bd m dg rj r' show ?thesis by auto
qed

lemma updateCache_calls_light:
  "updateCache e s = Inr s' \<Longrightarrow>
   calls C_ethash_light (trace s') = calls C_ethash_light (trace s)"
  by (auto simp: updateCache_def makeParamsAndCache_def Let_def calls_append calls_simps
        split: if_splits)

lemma verify_calls_light:
  assumes "verify e h m d bn n s = Inr (b, s')"
  shows "calls C_ethash_light (trace s') = calls C_ethash_light (trace s) + 1"
proof (cases "GetSeedBlockNum bn < PAC_SeedBlockNum (paramsAndCache s)")
  case True
  with assms show ?thesis
    by (auto simp: verify_def makeParamsAndCache_def Let_def calls_append calls_simps
          split: if_splits sum.splits)
next
  case False
  with assms obtain s1 where u: "updateCache e s = Inr s1"
    and t: "trace s' = trace s1 @ [Lock cacheMutex, Call C_ethash_light, Unlock cacheMutex]"
    by (auto simp: verify_def Let_def split: if_splits sum.splits)
  from updateCache_calls_light [OF u] t show ?thesis
    by (simp add: calls_append calls_simps)
qed

subsection \<open>Sizes and frames\<close>

lemma length_fit: "length (fit n b) = n"
  by (simp add: fit_def)

lemma makeParamsAndCache_ok:
  "makeParamsAndCache e h tr = Inr (p, tr') \<Longrightarrow> pac_ok e p"
  by (auto simp: makeParamsAndCache_def pac_ok_def Let_def length_fit split: if_splits)

lemma New_ok:
  "New e f = Inr s \<Longrightarrow> pac_ok e (paramsAndCache s) \<and> dag s = None"
  by (auto simp: New_def split: sum.splits dest: makeParamsAndCache_ok)

lemma updateCache_ok:
  assumes "pac_ok e (paramsAndCache s)" "updateCache e s = Inr s'"
  shows "pac_ok e (paramsAndCache s') \<and> dag s' = dag s"
proof (cases "PAC_SeedBlockNum (paramsAndCache s) = GetSeedBlockNum (CurrentBlock_NumberU64 e)")
  case True
  with assms show ?thesis by (auto simp: updateCache_current)
next
  case False
  with assms(2) obtain p tr where
    m: "makeParamsAndCache e (CurrentBlock_NumberU64 e) (trace s @ [Lock cacheMutex]) = Inr (p, tr)"
    and s': "s' = s\<lparr>paramsAndCache := p, trace := tr @ [Unlock cacheMutex]\<rparr>"
    by (auto simp: updateCache_def Let_def split: sum.splits)
  from makeParamsAndCache_ok [OF m] s' show ?thesis by simp
qed

lemma built_ok:
  "pac_ok e (paramsAndCache s) \<Longrightarrow>
   dag_ok e (built e s) \<and> DAG_SeedBlockNum (built e s) = PAC_SeedBlockNum (paramsAndCache s)"
  by (simp add: built_def makeDAG_def dag_ok_def pac_ok_def length_fit)

lemma updateDAG_sizes:
  assumes "updateDAG e s = Inr s'"
  shows "(\<not> needs_update e s \<and> dag s' = dag s)
       \<or> (needs_update e s \<and> dag s' = Some (built e s) \<and>
            (disk s = None \<or>
             (\<exists>c. disk s = Some c \<and> header e c < GetSeedBlockNum (CurrentBlock_NumberU64 e))))
       \<or> (needs_update e s \<and>
            (\<exists>c. disk s = Some c \<and> 8 < length c
               \<and> \<not> header e c < GetSeedBlockNum (CurrentBlock_NumberU64 e)
               \<and> dag s' = Some \<lparr>DAG_SeedBlockNum = PAC_SeedBlockNum (paramsAndCache s),
                                 DAG_dag = drop 8 c\<rparr>))"
  using updateDAG_Inr_cases [OF assms]
proof (elim disjE)
  assume "\<not> needs_update e s \<and> s' = s\<lparr>trace := trace s @
             [Lock cacheMutex, Lock dagMutex, Unlock dagMutex, Unlock cacheMutex]\<rparr>"
  then show ?thesis by simp
next
  assume "needs_update e s \<and> \<not> Create_fails e \<and> s' = regenerated e s \<and>
            (disk s = None \<or>
             (\<exists>c. disk s = Some c \<and> header e c < GetSeedBlockNum (CurrentBlock_NumberU64 e)))"
  then show ?thesis by (simp add: regenerated_def)
next
  assume "needs_update e s \<and>
            (\<exists>c. disk s = Some c \<and> 8 < length c \<and> s' = adopted c s \<and>
                 \<not> header e c < GetSeedBlockNum (CurrentBlock_NumberU64 e))"
  then obtain c where "needs_update e s" "disk s = Some c" "8 < length c" "s' = adopted c s"
    "\<not> header e c < GetSeedBlockNum (CurrentBlock_NumberU64 e)" by blast
  then show ?thesis by (simp add: adopted_def)
qed

lemma verify_frame:
  assumes "pac_ok e (paramsAndCache s)" "verify e h m d bn n s = Inr (b, s')"
  shows "pac_ok e (paramsAndCache s') \<and> dag s' = dag s"
proof (cases "GetSeedBlockNum bn < PAC_SeedBlockNum (paramsAndCache s)")
  case True
  with assms(2) have "paramsAndCache s' = paramsAndCache s \<and> dag s' = dag s"
    by (auto simp: verify_def Let_def split: if_splits sum.splits)
  with assms(1) show ?thesis by simp
next
  case False
  with assms(2) obtain s1 where u: "updateCache e s = Inr s1"
    and "paramsAndCache s' = paramsAndCache s1 \<and> dag s' = dag s1"
    by (auto simp: verify_def Let_def split: if_splits sum.splits)
  with updateCache_ok [OF assms(1) u] show ?thesis by simp
qed

lemma Verify_frame:
  assumes "pac_ok e (paramsAndCache s)" "Verify e block s = Inr (b, s')"
  shows "pac_ok e (paramsAndCache s') \<and> dag s' = dag s"
proof (cases "SeedHash block \<noteq> the_bytes (GetSeedHash e (NumberU64 block))")
  case True
  with assms show ?thesis by (simp add: Verify_def)
next
  case False
  with assms(2) have "verify e (HashNoNonce block) (MixDigest block) (Difficulty block)
             (NumberU64 block) (Nonce block) s = Inr (b, s')"
    by (simp add: Verify_def)
  from verify_frame [OF assms(1) this] show ?thesis .
qed

lemma Search_frame:
  assumes "Search e block stop s = Some (Inr (r, s'))"
  shows "\<exists>s1. updateDAG e s = Inr s1 \<and> paramsAndCache s' = paramsAndCache s \<and> dag s' = dag s1"
proof -
  from Search_Inr [OF assms] obtain s1 t s3 where
    u: "updateDAG e s = Inr s1"
    and l: "search_loop e block stop t 0 (rand_Int63 e)
             (s1\<lparr>trace := trace s1 @ [Lock dagMutex, Lock cacheMutex]\<rparr>) = Some (Inr (r, s3))"
    and s': "s' = s3\<lparr>trace := trace s3 @ [Unlock dagMutex, Unlock cacheMutex]\<rparr>"
    by blast
  from search_loop_returns [OF l]
  have "dag s3 = dag s1 \<and> paramsAndCache s3 = paramsAndCache s1"
    by (simp add: loop_post_def)
  with updateDAG_frame [OF u] u s' show ?thesis by simp
qed

lemma updateDAG_calls:
  assumes "updateDAG e s = Inr s'"
  shows "calls C_ethash_mkcache (trace s') = calls C_ethash_mkcache (trace s)"
proof -
  have f: "calls C_ethash_mkcache (frees s) = 0"
    by (cases "dag s") (simp_all add: frees_def calls_simps)
  from updateDAG_Inr_cases [OF assms]
  have "s' = s\<lparr>trace := trace s @
             [Lock cacheMutex, Lock dagMutex, Unlock dagMutex, Unlock cacheMutex]\<rparr>
        \<or> s' = regenerated e s \<or> (\<exists>c. s' = adopted c s)"
    by blast
  then show ?thesis
    using f by (auto simp: regenerated_def adopted_def calls_append calls_simps)
qed

lemma regenerated_calls:
  "calls C_ethash_compute_full_data (trace (regenerated e s)) =
     calls C_ethash_compute_full_data (trace s) + 1"
proof -
  have f: "calls C_ethash_compute_full_data (frees s) = 0"
    by (cases "dag s") (simp_all add: frees_def calls_simps)
  then show ?thesis by (simp add: regenerated_def calls_append calls_simps)
qed

lemma updateDAG_short_Inr:
  assumes "needs_update e s" "disk s = Some c" "length c \<le> 8" "updateDAG e s = Inr s'"
  shows "s' = regenerated e s \<and> header e c < GetSeedBlockNum (CurrentBlock_NumberU64 e)"
proof -
  have h: "header e c < GetSeedBlockNum (CurrentBlock_NumberU64 e)"
  proof (rule ccontr)
    assume "\<not> header e c < GetSeedBlockNum (CurrentBlock_NumberU64 e)"
    from updateDAG_short [OF assms(1,2,3) this] assms(4) show False by auto
  qed
  from updateDAG_Inr_cases [OF assms(4)] assms(1,2,3) h show ?thesis by auto
qed

subsection \<open>What a search returns, and when\<close>

lemma search_loop_found_after:
  "dag s = Some d \<Longrightarrow>
   rejected e block stop target i nonce s m \<Longrightarrow>
   \<not> stop (i + m) \<Longrightarrow>
   digest_full e block s (nonce + of_nat m) \<le> target \<Longrightarrow>
   \<exists>s'. search_loop e block stop target i nonce s =
          Some (Inr ((nonce + of_nat m, Some (GoBytes (mix_hash (ret s')) 32),
                      GetSeedHash e (NumberU64 block)), s'))
       \<and> trace s' = trace s @ replicate (Suc m) (Call C_ethash_full)
       \<and> dag s' = dag s \<and> paramsAndCache s' = paramsAndCache s
       \<and> Bytes2Big (GoBytes (result (ret s')) 32) = digest_full e block s (nonce + of_nat m)"
proof (induction m arbitrary: i nonce s)
  case 0
  let ?r = "ethash_full e (DAG_dag d) (params (paramsAndCache s)) (HashNoNonce block) nonce"
  let ?s2 = "s\<lparr>HashRate := measured_hashes e (i + 1), ret := ?r,
                 trace := trace s @ [Call C_ethash_full]\<rparr>"
  from 0 have ns: "\<not> stop i" and acc: "digest_full e block s nonce \<le> target" by simp_all
  have l: "search_loop e block stop target i nonce s =
     Some (Inr ((nonce, Some (GoBytes (mix_hash ?r) 32), GetSeedHash e (NumberU64 block)), ?s2))"
    using ns "0.prems"(1) acc by (rule search_loop_accept)
  have dg: "Bytes2Big (GoBytes (result ?r) 32) = digest_full e block s nonce"
    using "0.prems"(1) by (simp add: digest_full_def)
  show ?case
    by (rule exI [of _ ?s2]) (simp add: l dg)
next
  case (Suc m)
  let ?s2 = "s\<lparr>HashRate := measured_hashes e (i + 1),
        ret := ethash_full e (DAG_dag d) (params (paramsAndCache s)) (HashNoNonce block) nonce,
        trace := trace s @ [Call C_ethash_full]\<rparr>"
  from Suc.prems(2) have all:
    "\<forall>j<Suc m. \<not> stop (i + j) \<and> \<not> digest_full e block s (nonce + of_nat j) \<le> target"
    by (simp add: rejected_def)
  from all [rule_format, of 0]
  have ns: "\<not> stop i" and nd: "\<not> digest_full e block s nonce \<le> target"
    by simp_all
  have step: "search_loop e block stop target i nonce s =
        search_loop e block stop target (i + 1) (nonce + 1) ?s2"
    using ns Suc.prems(1) nd by (rule search_loop_reject)
  have d2: "dag ?s2 = Some d" using Suc.prems(1) by simp
  have rest: "rejected e block stop target (i + 1) (nonce + 1) ?s2 m"
    unfolding rejected_def
  proof (intro allI impI)
    fix j assume "j < m"
    then have "Suc j < Suc m" by simp
    with all have "\<not> stop (i + Suc j) \<and> \<not> digest_full e block s (nonce + of_nat (Suc j)) \<le> target"
      by blast
    then show "\<not> stop (i + 1 + j) \<and> \<not> digest_full e block ?s2 (nonce + 1 + of_nat j) \<le> target"
      by (simp add: digest_full_def ac_simps)
  qed
  have st: "\<not> stop (i + 1 + m)" using Suc.prems(3) by simp
  have ac: "digest_full e block ?s2 (nonce + 1 + of_nat m) \<le> target"
    using Suc.prems(4) by (simp add: digest_full_def ac_simps)
  from Suc.IH [OF d2 rest st ac] obtain s' where
    l: "search_loop e block stop target (i + 1) (nonce + 1) ?s2 =
          Some (Inr ((nonce + 1 + of_nat m, Some (GoBytes (mix_hash (ret s')) 32),
                      GetSeedHash e (NumberU64 block)), s'))"
    and t: "trace s' = trace ?s2 @ replicate (Suc m) (Call C_ethash_full)"
    and f: "dag s' = dag ?s2" "paramsAndCache s' = paramsAndCache ?s2"
    and g: "Bytes2Big (GoBytes (result (ret s')) 32) =
              digest_full e block ?s2 (nonce + 1 + of_nat m)"
    by blast
  have n: "nonce + 1 + of_nat m = nonce + of_nat (Suc m)" by (simp add: ac_simps)
  show ?case
    by (rule exI [of _ s']) (use l t f g in \<open>simp add: step n digest_full_def replicate_append_same\<close>)
qed

lemma Search_cancelled:
  assumes "Search e block stop s0 = Some (Inr ((0, None, None), s'))"
  shows "\<exists>t n. big_Div tt256 (Difficulty block) = Inr t \<and> stop n
           \<and> rejected e block stop t 0 (rand_Int63 e) s' n \<and> HashRate s' = 0"
proof -
  from Search_Inr [OF assms] obtain s1 t s3 where
    bd: "big_Div tt256 (Difficulty block) = Inr t"
    and l: "search_loop e block stop t 0 (rand_Int63 e)
             (s1\<lparr>trace := trace s1 @ [Lock dagMutex, Lock cacheMutex]\<rparr>) =
              Some (Inr ((0, None, None), s3))"
    and s': "s' = s3\<lparr>trace := trace s3 @ [Unlock dagMutex, Unlock cacheMutex]\<rparr>"
    by blast
  let ?s2 = "s1\<lparr>trace := trace s1 @ [Lock dagMutex, Lock cacheMutex]\<rparr>"
  from search_loop_returns [OF l] obtain n where
    fr: "dag s3 = dag ?s2" "paramsAndCache s3 = paramsAndCache ?s2"
    and c: "stop (0 + n)" "HashRate s3 = 0" "rejected e block stop t 0 (rand_Int63 e) ?s2 n"
    unfolding loop_post_def by auto
  have c1: "dag s' = dag ?s2" and c2: "paramsAndCache s' = paramsAndCache ?s2"
    using fr by (simp_all add: s')
  have rj: "rejected e block stop t 0 (rand_Int63 e) s' n"
    using c(3) rejected_cong [OF c1 c2] by simp
  from bd c rj show ?thesis by (auto simp: s')
qed

lemma Search_finds:
  assumes "updateDAG e s0 = Inr s1" and "HashNoNonce block \<noteq> []"
    and "big_Div tt256 (Difficulty block) = Inr t"
    and "rejected e block stop t 0 (rand_Int63 e) s1 m" and "\<not> stop m"
    and "digest_full e block s1 (rand_Int63 e + of_nat m) \<le> t"
  shows "\<exists>s'. Search e block stop s0 =
            Some (Inr ((rand_Int63 e + of_nat m, Some (GoBytes (mix_hash (ret s')) 32),
                        GetSeedHash e (NumberU64 block)), s'))
          \<and> Bytes2Big (GoBytes (result (ret s')) 32) =
              digest_full e block s1 (rand_Int63 e + of_nat m)
          \<and> calls C_ethash_full (trace s') = calls C_ethash_full (trace s1) + Suc m"
proof -
  let ?s2 = "s1\<lparr>trace := trace s1 @ [Lock dagMutex, Lock cacheMutex]\<rparr>"
  from updateDAG_dag [OF assms(1)] obtain d where "dag s1 = Some d" by blast
  then have d: "dag ?s2 = Some d" by simp
  have rj: "rejected e block stop t 0 (rand_Int63 e) ?s2 m"
    using assms(4) by (simp add: rejected_def digest_full_def)
  have st: "\<not> stop (0 + m)" using assms(5) by simp
  have ac: "digest_full e block ?s2 (rand_Int63 e + of_nat m) \<le> t"
    using assms(6) by (simp add: digest_full_def)
  from search_loop_found_after [OF d rj st ac] obtain s3 where
    l: "search_loop e block stop t 0 (rand_Int63 e) ?s2 =
          Some (Inr ((rand_Int63 e + of_nat m, Some (GoBytes (mix_hash (ret s3)) 32),
                      GetSeedHash e (NumberU64 block)), s3))"
    and tr: "trace s3 = trace ?s2 @ replicate (Suc m) (Call C_ethash_full)"
    and g: "Bytes2Big (GoBytes (result (ret s3)) 32) =
              digest_full e block ?s2 (rand_Int63 e + of_nat m)"
    by blast
  let ?s' = "s3\<lparr>trace := trace s3 @ [Unlock dagMutex, Unlock cacheMutex]\<rparr>"
  have 1: "Search e block stop s0 =
            Some (Inr ((rand_Int63 e + of_nat m, Some (GoBytes (mix_hash (ret ?s')) 32),
                        GetSeedHash e (NumberU64 block)), ?s'))"
    unfolding Search_def assms(1) using assms(2) by (simp add: assms(3) l Let_def)
  have 2: "Bytes2Big (GoBytes (result (ret ?s')) 32) =
              digest_full e block s1 (rand_Int63 e + of_nat m)"
    using g by (simp add: digest_full_def)
  have 3: "calls C_ethash_full (trace ?s') = calls C_ethash_full (trace s1) + Suc m"
    by (simp add: tr calls_append calls_replicate calls_simps)
  from 1 2 3 show ?thesis by blast
qed

lemma Search_cancels:
  assumes "updateDAG e s0 = Inr s1" and "HashNoNonce block \<noteq> []"
    and "big_Div tt256 (Difficulty block) = Inr t"
    and "rejected e block stop t 0 (rand_Int63 e) s1 k" and "stop k"
  shows "\<exists>s'. Search e block stop s0 = Some (Inr ((0, None, None), s'))"
proof -
  let ?s2 = "s1\<lparr>trace := trace s1 @ [Lock dagMutex, Lock cacheMutex]\<rparr>"
  from updateDAG_dag [OF assms(1)] obtain d where "dag s1 = Some d" by blast
  then have d: "dag ?s2 = Some d" by simp
  have rj: "rejected e block stop t 0 (rand_Int63 e) ?s2 k"
    using assms(4) by (simp add: rejected_def digest_full_def)
  from assms(5) have st: "stop (0 + k)" by simp
  from search_loop_cancel_at [OF d rj st] obtain s3 where
    l: "search_loop e block stop t 0 (rand_Int63 e) ?s2 = Some (Inr ((0, None, None), s3))"
    by blast
  have "Search e block stop s0 = Some (Inr ((0, None, None),
          s3\<lparr>trace := trace s3 @ [Unlock dagMutex, Unlock cacheMutex]\<rparr>))"
    unfolding Search_def assms(1) using assms(2) by (simp add: assms(3) l Let_def)
  then show ?thesis by blast
qed

subsection \<open>The example inputs evaluated\<close>

lemma GetSeedBlockNum_0: "GetSeedBlockNum 0 = 0"
  by (simp add: GetSeedBlockNum_def epochLength_def)

lemma GetSeedBlockNum_30001: "GetSeedBlockNum 30001 = 30000"
  by (simp add: GetSeedBlockNum_def epochLength_def)

lemma PutUint64_0: "BigEndian_PutUint64 0 = [0, 0, 0, 0, 0, 0, 0, 0]"
  by (simp add: BigEndian_PutUint64_def upt_rec)

lemma replicate_small:
  "replicate 2 x = [x, x]" "replicate 3 x = [x, x, x]" "replicate 4 x = [x, x, x, x]"
  "replicate 5 x = [x, x, x, x, x]"
  by (simp_all add: numeral_eq_Suc)

lemma ex_env_simps:
  "CurrentBlock_NumberU64 ex_env = 0"
  "GetBlockByNumber_SeedHash ex_env n = Some [ucast (n div 30000), 1]"
  "ethash_params_init ex_env ep =
     \<lparr>full_size = 4 + unat ep div 30000, cache_size = 2 + unat ep div 30000\<rparr>"
  "ethash_mkcache ex_env p seed = replicate (cache_size p) (hd seed)"
  "ethash_compute_full_data ex_env p c = replicate (full_size p) (hd c + 16)"
  "ethash_full ex_env d p h n = \<lparr>result = 128 # replicate 31 0, mix_hash = replicate 32 7\<rparr>"
  "ethash_light ex_env c p h n = \<lparr>result = 128 # replicate 31 0, mix_hash = replicate 32 7\<rparr>"
  "ReadAll_fails ex_env = False" "ReadAll_spare ex_env = []" "Create_fails ex_env = False"
  "rand_Int63 ex_env = 0" "measured_hashes ex_env i = 1000"
  by (simp_all add: ex_env_def)

lemma ex_state_New: "New ex_env None = Inr ex_state"
  by (simp add: New_def ex_env_def ex_state_def makeParamsAndCache_def GetSeedBlockNum_0 fit_def
        numeral_2_eq_2)

lemma ex_digest: "Bytes2Big (GoBytes (128 # replicate 31 0) 32) = 2 ^ 255"
  by code_simp

lemma ex_digest_full: "digest_full ex_env b s n = 2 ^ 255"
  by (simp add: digest_full_def ex_env_simps ex_digest)

lemma ex_GetSeedHash: "GetSeedHash ex_env 1 = Some [0, 1]"
  by (simp add: GetSeedHash_def ex_env_def GetSeedBlockNum_def epochLength_def)

lemma ex_updateCache: "updateCache ex_env_30001 ex_state = Inr ex_state_30000"
  by (simp add: updateCache_def ex_env_30001_def ex_env_def ex_state_def ex_state_30000_def
        makeParamsAndCache_def GetSeedBlockNum_30001 fit_def numeral_3_eq_3)

lemma ex_built: "built ex_env ex_state = \<lparr>DAG_SeedBlockNum = 0, DAG_dag = [16, 16, 16, 16]\<rparr>"
  by (simp add: built_def makeDAG_def ex_env_simps ex_state_def fit_def replicate_small)

lemma ex_updateDAG: "updateDAG ex_env ex_state = Inr ex_state_dag"
proof -
  have nu: "needs_update ex_env ex_state" by (simp add: needs_update_def ex_state_def)
  have d: "disk ex_state = None" by (simp add: ex_state_def)
  have c: "\<not> Create_fails ex_env" by (simp add: ex_env_simps)
  have "regenerated ex_env ex_state = ex_state_dag"
    unfolding regenerated_def ex_built
    by (simp add: ex_state_dag_def ex_state_def ex_env_simps GetSeedBlockNum_0 PutUint64_0
          frees_def GoBytes_def)
  with updateDAG_missing [OF nu d] c show ?thesis by simp
qed

lemma ex_Search_found:
  "Search ex_env ex_block (\<lambda>i. False) ex_state =
     Some (Inr ((0, Some (replicate 32 7), Some [0, 1]), ex_state_found))"
proof -
  define T :: int where "T = 2 ^ 256"
  let ?s2 = "ex_state_dag\<lparr>trace := trace ex_state_dag @ [Lock dagMutex, Lock cacheMutex]\<rparr>"
  have d: "dag ?s2 = Some \<lparr>DAG_SeedBlockNum = 0, DAG_dag = [16, 16, 16, 16]\<rparr>"
    by (simp add: ex_state_dag_def)
  have acc: "digest_full ex_env ex_block ?s2 0 \<le> T" by (simp add: ex_digest_full T_def)
  have loop: "search_loop ex_env ex_block (\<lambda>i. False) T 0 0 ?s2 =
     Some (Inr ((0, Some (replicate 32 7), Some [0, 1]),
       ex_state_dag\<lparr>HashRate := 1000,
          ret := \<lparr>result = 128 # replicate 31 0, mix_hash = replicate 32 7\<rparr>,
          trace := trace ex_state_dag @ [Lock dagMutex, Lock cacheMutex, Call C_ethash_full]\<rparr>))"
    by (subst search_loop_accept [OF _ d acc])
       (simp_all add: ex_env_simps ex_block_def ex_GetSeedHash GoBytes_def)
  have t: "big_Div tt256 (Difficulty ex_block) = Inr T"
    by (simp add: big_Div_def tt256_def ex_block_def T_def)
  have h: "HashNoNonce ex_block \<noteq> []" by (simp add: ex_block_def)
  have r: "rand_Int63 ex_env = 0" by (simp add: ex_env_simps)
  show ?thesis
    unfolding Search_def ex_updateDAG
    using h by (simp add: t r loop Let_def ex_state_found_def)
qed

lemma ex_rejected: "rejected ex_env ex_block4 ex_stop (2 ^ 254) 0 0 ex_state_dag 2"
  by (simp add: rejected_def ex_digest_full ex_stop_def)

lemma ex_big_Div_4: "big_Div tt256 (Difficulty ex_block4) = Inr (2 ^ 254)"
  by (simp add: big_Div_def tt256_def ex_block4_def ex_block_def)

lemma ex_verify:
  "verify ex_env [1] [] 2 1 0 ex_state = Inr (True, ex_state_verified)"
proof -
  have t: "big_Div tt256 2 = Inr (2 ^ 255)" by (simp add: big_Div_def tt256_def)
  have ep: "GetSeedBlockNum 1 = 0" by (simp add: GetSeedBlockNum_def epochLength_def)
  have cur: "PAC_SeedBlockNum (paramsAndCache ex_state)
               = GetSeedBlockNum (CurrentBlock_NumberU64 ex_env)"
    by (simp add: ex_state_def ex_env_simps GetSeedBlockNum_0)
  have pe: "PAC_SeedBlockNum (paramsAndCache ex_state) = 0" by (simp add: ex_state_def)
  show ?thesis
    unfolding verify_def updateCache_current [OF cur] t
    by (simp add: ep pe ex_env_simps ex_digest ex_state_verified_def Let_def)
qed

lemma ex_Verify: "Verify ex_env ex_block2 ex_state = Inr (True, ex_state_verified)"
proof -
  have "SeedHash ex_block2 = the_bytes (GetSeedHash ex_env (NumberU64 ex_block2))"
    by (simp add: ex_block2_def ex_block_def ex_GetSeedHash)
  then show ?thesis
    unfolding Verify_def using ex_verify by (simp add: ex_block2_def ex_block_def)
qed

lemma Uint64_30000: "BigEndian_Uint64 [0, 0, 0, 0, 0, 0, 117, 48] = 30000"
  by (simp add: BigEndian_Uint64_def)

lemma PutUint64_30000: "BigEndian_PutUint64 30000 = [0, 0, 0, 0, 0, 0, 117, 48]"
  by (simp add: BigEndian_PutUint64_def upt_rec drop_bit_eq_div)

lemma ex_env_30001_simps:
  "CurrentBlock_NumberU64 ex_env_30001 = 30001"
  "ethash_params_init ex_env_30001 ep = ethash_params_init ex_env ep"
  "ethash_compute_full_data ex_env_30001 p c = ethash_compute_full_data ex_env p c"
  "ReadAll_fails ex_env_30001 = False" "ReadAll_spare ex_env_30001 = []"
  "Create_fails ex_env_30001 = False"
  by (simp_all add: ex_env_30001_def ex_env_def)

lemma ex_pac_ok: "pac_ok ex_env (paramsAndCache ex_state)"
  by (simp add: pac_ok_def ex_state_def ex_env_simps)

lemma ex_updateDAG_adopt: "updateDAG ex_env ex_state_file = Inr ex_state_adopted"
proof -
  let ?c = "[0, 0, 0, 0, 0, 0, 117, 48, 9, 9, 9, 9, 9] :: bytes"
  have nu: "needs_update ex_env ex_state_file"
    by (simp add: needs_update_def ex_state_file_def ex_state_def)
  have d: "disk ex_state_file = Some ?c" by (simp add: ex_state_file_def)
  have r: "\<not> ReadAll_fails ex_env" by (simp add: ex_env_simps)
  have l: "8 < length ?c" by simp
  have h: "\<not> header ex_env ?c < GetSeedBlockNum (CurrentBlock_NumberU64 ex_env)"
    by (simp add: header_def ex_env_simps GetSeedBlockNum_0)
  have "adopted ?c ex_state_file = ex_state_adopted"
    by (simp add: adopted_def ex_state_adopted_def ex_state_file_def ex_state_def frees_def)
  with updateDAG_adopt [OF nu d r l h] show ?thesis by simp
qed

lemma ex_updateCache_current:
  "updateCache ex_env ex_state =
     Inr (ex_state\<lparr>trace := trace ex_state @ [Lock cacheMutex, Unlock cacheMutex]\<rparr>)"
  by (rule updateCache_current) (simp add: ex_state_def ex_env_simps GetSeedBlockNum_0)

lemma ex_needs_update: "needs_update e ex_state"
  by (simp add: needs_update_def ex_state_def)

lemma ex_built_30001:
  "built ex_env_30001 ex_state = \<lparr>DAG_SeedBlockNum = 0, DAG_dag = [16, 16, 16, 16]\<rparr>"
  by (simp add: built_def makeDAG_def ex_env_30001_simps ex_env_simps ex_state_def fit_def
        replicate_small)

lemma ex_updateDAG_stale: "updateDAG ex_env_30001 ex_state = Inr ex_state_stale"
proof -
  have d: "disk ex_state = None" by (simp add: ex_state_def)
  have c: "\<not> Create_fails ex_env_30001" by (simp add: ex_env_30001_simps)
  have "regenerated ex_env_30001 ex_state = ex_state_stale"
    unfolding regenerated_def ex_built_30001
    by (simp add: ex_state_stale_def ex_state_def ex_env_30001_simps GetSeedBlockNum_30001
          PutUint64_30000 frees_def GoBytes_def)
  with updateDAG_missing [OF ex_needs_update d] c show ?thesis by simp
qed

lemma ex_updateDAG_short: "updateDAG ex_env ex_state_short = Inl SliceBoundsOutOfRange"
  by (simp add: updateDAG_def loadOrGenerate_def ex_state_short_def ex_state_def ex_env_simps
        Let_def)

lemma ex_env_spare_simps:
  "CurrentBlock_NumberU64 ex_env_spare = 30001"
  "ReadAll_fails ex_env_spare = False" "ReadAll_spare ex_env_spare = [0, 0, 0, 0, 0, 0, 0, 0]"
  "Create_fails ex_env_spare = False"
  by (simp_all add: ex_env_spare_def ex_env_30001_def ex_env_def)

lemma ex_updateDAG_empty:
  "updateDAG ex_env_spare ex_state_empty = Inr (regenerated ex_env_spare ex_state_empty)"
proof -
  have nu: "needs_update ex_env_spare ex_state_empty"
    by (simp add: needs_update_def ex_state_empty_def ex_state_def)
  have d: "disk ex_state_empty = Some []" by (simp add: ex_state_empty_def)
  have r: "\<not> ReadAll_fails ex_env_spare" by (simp add: ex_env_spare_simps)
  have l: "8 \<le> length ([] :: bytes) + length (ReadAll_spare ex_env_spare)"
    by (simp add: ex_env_spare_simps)
  have h: "header ex_env_spare [] < GetSeedBlockNum (CurrentBlock_NumberU64 ex_env_spare)"
    by (simp add: header_def ex_env_spare_simps GetSeedBlockNum_30001 BigEndian_Uint64_def)
  from updateDAG_stale [OF nu d r l h] show ?thesis by (simp add: ex_env_spare_simps)
qed

lemma ex_Search_cancelled:
  "\<exists>s'. Search ex_env ex_block4 ex_stop ex_state = Some (Inr ((0, None, None), s'))"
proof -
  have hn: "HashNoNonce ex_block4 \<noteq> []" by (simp add: ex_block4_def ex_block_def)
  have rj: "rejected ex_env ex_block4 ex_stop (2 ^ 254) 0 (rand_Int63 ex_env) ex_state_dag 2"
    using ex_rejected by (simp add: ex_env_simps)
  have st: "ex_stop 2" by (simp add: ex_stop_def)
  from Search_cancels [OF ex_updateDAG hn ex_big_Div_4 rj st] show ?thesis .
qed

section \<open>The claims\<close>

subsection \<open>Epoch of a block height\<close>

text \<open>
  Claim C1. With \<open>epochLength = 30000\<close>, the epoch of a height \<open>h\<close> is 0 when
  \<open>h \<le> 30000\<close> and \<open>floor((h - 1) / 30000) * 30000\<close> when \<open>h > 30000\<close>, for every 64-bit
  height (no step of the computation wraps around); at the boundaries the epochs of
  0, 30000, 30001, 60000 and 60001 are 0, 0, 30000, 30000 and 60000.
\<close>

theorem C1_GetSeedBlockNum_formula:
  "unat (GetSeedBlockNum h) =
     (if unat h \<le> 30000 then 0 else ((unat h - 1) div 30000) * 30000)
   \<and> GetSeedBlockNum 0 = 0 \<and> GetSeedBlockNum 30000 = 0
   \<and> GetSeedBlockNum 30001 = 30000 \<and> GetSeedBlockNum 60000 = 30000
   \<and> GetSeedBlockNum 60001 = 60000"
  by (simp add: unat_GetSeedBlockNum) (simp add: GetSeedBlockNum_def epochLength_def)

subsection \<open>Lock order\<close>

text \<open>
  Claim C3 says that every path that takes both mutexes takes the cache mutex first.
  \<^verbatim>\<open>updateDAG\<close> does (lemma \<open>updateDAG_lock_order\<close>), but \<^verbatim>\<open>Search\<close> does not: after
  \<^verbatim>\<open>updateDAG\<close> has released both, lines 220-221 lock \<open>dagMutex\<close> and then \<open>cacheMutex\<close>.
  So every \<^verbatim>\<open>Search\<close> that returns, started while the caller holds neither mutex, has
  locked the cache mutex while holding the dataset mutex.
\<close>

theorem C3_Search_locks_dag_before_cache:
  assumes "Search e block stop s0 = Some (Inr (r, s'))"
    and "held_after [] (trace s0) = []"
  shows "\<not> lock_order_ok [] (trace s')"
proof -
  from Search_Inr [OF assms(1)] obtain s1 target s3 where
    u: "updateDAG e s0 = Inr s1"
    and l: "search_loop e block stop target 0 (rand_Int63 e)
             (s1\<lparr>trace := trace s1 @ [Lock dagMutex, Lock cacheMutex]\<rparr>) = Some (Inr (r, s3))"
    and s': "s' = s3\<lparr>trace := trace s3 @ [Unlock dagMutex, Unlock cacheMutex]\<rparr>"
    by blast
  from updateDAG_trace [OF u] obtain cs where
    t1: "trace s1 = trace s0 @ [Lock cacheMutex, Lock dagMutex] @ map Call cs @
                 [Unlock dagMutex, Unlock cacheMutex]" by blast
  from search_loop_returns [OF l] obtain n where
    t3: "trace s3 = (trace s1 @ [Lock dagMutex, Lock cacheMutex]) @ replicate n (Call C_ethash_full)"
    by (auto simp: loop_post_def)
  have "trace s' = trace s0 @ ([Lock cacheMutex, Lock dagMutex] @ map Call cs @
                 [Unlock dagMutex, Unlock cacheMutex]) @ [Lock dagMutex, Lock cacheMutex] @
                 (replicate n (Call C_ethash_full) @ [Unlock dagMutex, Unlock cacheMutex])"
    by (simp add: s' t3 t1)
  then show ?thesis using assms(2)
    by (simp add: lock_order_ok_append held_after_append held_after_calls lock_order_ok_calls)
qed

theorem C3_witness:
  "Search ex_env ex_block (\<lambda>i. False) ex_state =
     Some (Inr ((0, Some (replicate 32 7), Some [0, 1]), ex_state_found))
   \<and> held_after [] (trace ex_state) = []
   \<and> \<not> lock_order_ok [] (trace ex_state_found)"
proof -
  have h: "held_after [] (trace ex_state) = []" by (simp add: ex_state_def)
  from C3_Search_locks_dag_before_cache [OF ex_Search_found h] ex_Search_found h
  show ?thesis by simp
qed

subsection \<open>Verification\<close>

text \<open>
  Claim C7. When the seed hash of the block differs from the one the chain gives for the
  epoch of the block's height, \<^verbatim>\<open>Verify\<close> returns false and leaves the state as it was;
  the event log is part of the state, so no C function (\<^verbatim>\<open>ethash_light\<close> among them) has
  been called. (When \<^verbatim>\<open>verify\<close> does run and returns, the log has one more call of
  \<^verbatim>\<open>ethash_light\<close>: lemma \<open>verify_calls_light\<close>.)
\<close>

theorem C7_Verify_rejects_seed_mismatch:
  "SeedHash block \<noteq> the_bytes (GetSeedHash e (NumberU64 block)) \<Longrightarrow>
   Verify e block s = Inr (False, s)"
  by (simp add: Verify_def)

theorem C7_witness:
  "SeedHash (ex_block\<lparr>SeedHash := [9]\<rparr>)
     \<noteq> the_bytes (GetSeedHash ex_env (NumberU64 (ex_block\<lparr>SeedHash := [9]\<rparr>)))
   \<and> Verify ex_env (ex_block\<lparr>SeedHash := [9]\<rparr>) ex_state = Inr (False, ex_state)"
proof -
  have h: "SeedHash (ex_block\<lparr>SeedHash := [9]\<rparr>)
     \<noteq> the_bytes (GetSeedHash ex_env (NumberU64 (ex_block\<lparr>SeedHash := [9]\<rparr>)))"
    by (simp add: ex_block_def ex_GetSeedHash)
  from C7_Verify_rejects_seed_mismatch [OF h] h show ?thesis by simp
qed

subsection \<open>The cache\<close>

text \<open>
  Claim C8. When the held cache is of the epoch of the current height, \<^verbatim>\<open>updateCache\<close>
  only locks and unlocks the cache mutex: no field changes and no C function is called.
  After any \<^verbatim>\<open>updateCache\<close> that returns, a second one at the same height is such a
  no-op, and the first has called \<^verbatim>\<open>ethash_mkcache\<close> once if the epoch had changed and
  not at all otherwise.
\<close>

theorem C8_updateCache_idempotent:
  "(PAC_SeedBlockNum (paramsAndCache s) = GetSeedBlockNum (CurrentBlock_NumberU64 e) \<longrightarrow>
      updateCache e s = Inr (s\<lparr>trace := trace s @ [Lock cacheMutex, Unlock cacheMutex]\<rparr>))
   \<and> (updateCache e s = Inr s1 \<longrightarrow>
        updateCache e s1 = Inr (s1\<lparr>trace := trace s1 @ [Lock cacheMutex, Unlock cacheMutex]\<rparr>)
        \<and> calls C_ethash_mkcache (trace s1) = calls C_ethash_mkcache (trace s) +
             (if PAC_SeedBlockNum (paramsAndCache s) = GetSeedBlockNum (CurrentBlock_NumberU64 e)
              then 0 else 1))"
proof (intro conjI impI)
  assume "PAC_SeedBlockNum (paramsAndCache s) = GetSeedBlockNum (CurrentBlock_NumberU64 e)"
  then show "updateCache e s = Inr (s\<lparr>trace := trace s @ [Lock cacheMutex, Unlock cacheMutex]\<rparr>)"
    by (rule updateCache_current)
next
  assume first: "updateCache e s = Inr s1"
  from updateCache_epoch [OF first]
  show "updateCache e s1 = Inr (s1\<lparr>trace := trace s1 @ [Lock cacheMutex, Unlock cacheMutex]\<rparr>)"
    by (rule updateCache_current)
  from first
  show "calls C_ethash_mkcache (trace s1) = calls C_ethash_mkcache (trace s) +
          (if PAC_SeedBlockNum (paramsAndCache s) = GetSeedBlockNum (CurrentBlock_NumberU64 e)
           then 0 else 1)"
    by (rule updateCache_calls)
qed

theorem C8_witness:
  "updateCache ex_env_30001 ex_state = Inr ex_state_30000
   \<and> updateCache ex_env_30001 ex_state_30000 =
       Inr (ex_state_30000\<lparr>trace := trace ex_state_30000 @ [Lock cacheMutex, Unlock cacheMutex]\<rparr>)
   \<and> calls C_ethash_mkcache (trace ex_state_30000) = calls C_ethash_mkcache (trace ex_state) + 1
   \<and> PAC_SeedBlockNum (paramsAndCache ex_state_30000)
       = GetSeedBlockNum (CurrentBlock_NumberU64 ex_env_30001)"
proof -
  have ne: "PAC_SeedBlockNum (paramsAndCache ex_state)
              \<noteq> GetSeedBlockNum (CurrentBlock_NumberU64 ex_env_30001)"
    by (simp add: ex_state_def ex_env_30001_def ex_env_def GetSeedBlockNum_30001)
  have eq: "PAC_SeedBlockNum (paramsAndCache ex_state_30000)
       = GetSeedBlockNum (CurrentBlock_NumberU64 ex_env_30001)"
    by (simp add: ex_state_30000_def ex_env_30001_def ex_env_def GetSeedBlockNum_30001)
  from C8_updateCache_idempotent [of ex_state ex_env_30001 ex_state_30000] ex_updateCache ne eq
  show ?thesis by simp
qed

subsection \<open>Cancellation of the search\<close>

text \<open>
  Claim C9. Whenever the stop signal is ready at the poll of a loop iteration, the loop
  returns in that iteration: it sets the hash rate to 0 and returns the cancelled outcome
  \<open>(0, nil, nil)\<close> as an ordinary result, touching nothing else, so \<^verbatim>\<open>ethash_full\<close> is not
  called again. For a whole \<^verbatim>\<open>Search\<close>: when \<^verbatim>\<open>updateDAG\<close> succeeds, the block has a hash and
  a nonzero difficulty, the first \<open>k\<close> polls see no signal and the first \<open>k\<close> attempts miss
  the target, and the signal is ready at poll \<open>k\<close>, then \<^verbatim>\<open>Search\<close> returns the cancelled
  outcome with hash rate 0 after exactly \<open>k\<close> calls of \<^verbatim>\<open>ethash_full\<close>.
\<close>

theorem C9_Search_cancelled:
  "(stop i \<longrightarrow>
      search_loop e block stop target i nonce s =
        Some (Inr ((0, None, None), s\<lparr>HashRate := 0\<rparr>)))
   \<and> (updateDAG e s0 = Inr s1 \<and> HashNoNonce block \<noteq> [] \<and>
        big_Div tt256 (Difficulty block) = Inr t \<and>
        rejected e block stop t 0 (rand_Int63 e) s1 k \<and> stop k \<longrightarrow>
        (\<exists>s'. Search e block stop s0 = Some (Inr ((0, None, None), s')) \<and> HashRate s' = 0 \<and>
              calls C_ethash_full (trace s') = calls C_ethash_full (trace s1) + k))"
proof (intro conjI impI)
  assume "stop i"
  then show "search_loop e block stop target i nonce s =
        Some (Inr ((0, None, None), s\<lparr>HashRate := 0\<rparr>))"
    by (rule search_loop_stop)
next
  assume a: "updateDAG e s0 = Inr s1 \<and> HashNoNonce block \<noteq> [] \<and>
        big_Div tt256 (Difficulty block) = Inr t \<and>
        rejected e block stop t 0 (rand_Int63 e) s1 k \<and> stop k"
  then have u: "updateDAG e s0 = Inr s1" and hn: "HashNoNonce block \<noteq> []"
    and bd: "big_Div tt256 (Difficulty block) = Inr t"
    and rj1: "rejected e block stop t 0 (rand_Int63 e) s1 k" and sk: "stop k"
    by blast+
  let ?s2 = "s1\<lparr>trace := trace s1 @ [Lock dagMutex, Lock cacheMutex]\<rparr>"
  from updateDAG_dag [OF u] obtain d where "dag s1 = Some d" by blast
  then have d: "dag ?s2 = Some d" by simp
  have rj: "rejected e block stop t 0 (rand_Int63 e) ?s2 k"
    using rj1 by (simp add: rejected_def digest_full_def)
  from sk have st: "stop (0 + k)" by simp
  from search_loop_cancel_at [OF d rj st] obtain s3 where
    l: "search_loop e block stop t 0 (rand_Int63 e) ?s2 = Some (Inr ((0, None, None), s3))"
    and h: "HashRate s3 = 0"
    and tr: "trace s3 = trace ?s2 @ replicate k (Call C_ethash_full)"
    by blast
  let ?s' = "s3\<lparr>trace := trace s3 @ [Unlock dagMutex, Unlock cacheMutex]\<rparr>"
  have "Search e block stop s0 = Some (Inr ((0, None, None), ?s'))"
    unfolding Search_def u using hn by (simp add: bd l Let_def)
  moreover have "HashRate ?s' = 0" using h by simp
  moreover have "calls C_ethash_full (trace ?s') = calls C_ethash_full (trace s1) + k"
    by (simp add: tr calls_append calls_replicate calls_simps)
  ultimately show "\<exists>s'. Search e block stop s0 = Some (Inr ((0, None, None), s')) \<and>
      HashRate s' = 0 \<and> calls C_ethash_full (trace s') = calls C_ethash_full (trace s1) + k"
    by blast
qed

theorem C9_witness:
  "search_loop ex_env ex_block4 ex_stop (2 ^ 254) 2 2 ex_state_dag =
        Some (Inr ((0, None, None), ex_state_dag\<lparr>HashRate := 0\<rparr>))
   \<and> updateDAG ex_env ex_state = Inr ex_state_dag
   \<and> rejected ex_env ex_block4 ex_stop (2 ^ 254) 0 (rand_Int63 ex_env) ex_state_dag 2
   \<and> (\<exists>s'. Search ex_env ex_block4 ex_stop ex_state = Some (Inr ((0, None, None), s')) \<and>
            HashRate s' = 0 \<and>
            calls C_ethash_full (trace s') = calls C_ethash_full (trace ex_state_dag) + 2)"
proof -
  have st: "ex_stop 2" by (simp add: ex_stop_def)
  have hn: "HashNoNonce ex_block4 \<noteq> []" by (simp add: ex_block4_def ex_block_def)
  have rj: "rejected ex_env ex_block4 ex_stop (2 ^ 254) 0 (rand_Int63 ex_env) ex_state_dag 2"
    using ex_rejected by (simp add: ex_env_simps)
  note inst = C9_Search_cancelled [where stop = ex_stop and i = 2 and e = ex_env
      and block = ex_block4 and target = "2 ^ 254" and nonce = 2 and s = ex_state_dag
      and ?s0.0 = ex_state and ?s1.0 = ex_state_dag and t = "2 ^ 254" and k = 2]
  from inst st have a: "search_loop ex_env ex_block4 ex_stop (2 ^ 254) 2 2 ex_state_dag =
        Some (Inr ((0, None, None), ex_state_dag\<lparr>HashRate := 0\<rparr>))"
    by blast
  from inst ex_updateDAG hn ex_big_Div_4 rj st
  have b: "\<exists>s'. Search ex_env ex_block4 ex_stop ex_state = Some (Inr ((0, None, None), s')) \<and>
            HashRate s' = 0 \<and>
            calls C_ethash_full (trace s') = calls C_ethash_full (trace ex_state_dag) + 2"
    by blast
  from a b ex_updateDAG rj show ?thesis by blast
qed

text \<open>
  Claim C10. Every result of \<^verbatim>\<open>Search\<close> is either the triple \<open>(0, nil, nil)\<close>, returned on
  cancellation (the stop signal was ready at some poll, the hash rate is 0), or a nonce
  with a non-nil mix digest (the 32 bytes of \<^verbatim>\<open>pow.ret.mix_hash\<close>) and the seed hash of the
  block's epoch; a search cancelled at its first poll returns \<open>(0, nil, nil)\<close>; and the
  nonce 0 is a possible successful result, so only the nil slices tell the two apart.
\<close>

theorem C10_cancelled_triple:
  "(Search e block stop s0 = Some (Inr (r, s')) \<longrightarrow>
      (r = (0, None, None) \<and> HashRate s' = 0 \<and> (\<exists>k. stop k))
      \<or> (\<exists>m. r = (rand_Int63 e + of_nat m, Some (GoBytes (mix_hash (ret s')) 32),
                    GetSeedHash e (NumberU64 block))))
   \<and> (stop 0 \<and> updateDAG e s0 = Inr s1 \<and> HashNoNonce block \<noteq> [] \<and> Difficulty block \<noteq> 0 \<longrightarrow>
        (\<exists>s'. Search e block stop s0 = Some (Inr ((0, None, None), s'))))
   \<and> (\<exists>e block stop s0 mix seed s'.
         Search e block stop s0 = Some (Inr ((0, Some mix, seed), s')))"
proof (intro conjI impI)
  assume "Search e block stop s0 = Some (Inr (r, s'))"
  then show "(r = (0, None, None) \<and> HashRate s' = 0 \<and> (\<exists>k. stop k))
      \<or> (\<exists>m. r = (rand_Int63 e + of_nat m, Some (GoBytes (mix_hash (ret s')) 32),
                    GetSeedHash e (NumberU64 block)))"
    by (rule Search_result_shape)
next
  assume a: "stop 0 \<and> updateDAG e s0 = Inr s1 \<and> HashNoNonce block \<noteq> [] \<and> Difficulty block \<noteq> 0"
  then have st: "stop 0" and u: "updateDAG e s0 = Inr s1" and hn: "HashNoNonce block \<noteq> []"
    and df: "Difficulty block \<noteq> 0" by blast+
  from df obtain t where bd: "big_Div tt256 (Difficulty block) = Inr t"
    by (simp add: big_Div_def)
  let ?s2 = "s1\<lparr>trace := trace s1 @ [Lock dagMutex, Lock cacheMutex]\<rparr>"
  have l: "search_loop e block stop t 0 (rand_Int63 e) ?s2 =
             Some (Inr ((0, None, None), ?s2\<lparr>HashRate := 0\<rparr>))"
    using st by (rule search_loop_stop)
  have "Search e block stop s0 = Some (Inr ((0, None, None),
          ?s2\<lparr>HashRate := 0, trace := trace ?s2 @ [Unlock dagMutex, Unlock cacheMutex]\<rparr>))"
    unfolding Search_def u using hn by (simp add: bd l Let_def)
  then show "\<exists>s'. Search e block stop s0 = Some (Inr ((0, None, None), s'))" by blast
next
  from ex_Search_found
  show "\<exists>e block stop s0 mix seed s'.
         Search e block stop s0 = Some (Inr ((0, Some mix, seed), s'))"
    by blast
qed

theorem C10_witness:
  "Search ex_env ex_block (\<lambda>i. False) ex_state =
     Some (Inr ((0, Some (replicate 32 7), Some [0, 1]), ex_state_found))
   \<and> (\<exists>m. (0, Some (replicate 32 7), Some [0, 1]) =
          (rand_Int63 ex_env + of_nat m, Some (GoBytes (mix_hash (ret ex_state_found)) 32),
           GetSeedHash ex_env (NumberU64 ex_block)))
   \<and> updateDAG ex_env ex_state = Inr ex_state_dag
   \<and> (\<exists>s'. Search ex_env ex_block (\<lambda>i. True) ex_state = Some (Inr ((0, None, None), s')))"
proof -
  note a = C10_cancelled_triple [where e = ex_env and block = ex_block
      and stop = "\<lambda>i. False" and ?s0.0 = ex_state
      and r = "(0, Some (replicate 32 7), Some [0, 1])" and s' = ex_state_found
      and ?s1.0 = ex_state_dag]
  note b = C10_cancelled_triple [where e = ex_env and block = ex_block
      and stop = "\<lambda>i. True" and ?s0.0 = ex_state
      and r = "(0, None, None)" and s' = ex_state and ?s1.0 = ex_state_dag]
  have hn: "HashNoNonce ex_block \<noteq> []" and df: "Difficulty ex_block \<noteq> 0"
    by (simp_all add: ex_block_def)
  from a ex_Search_found
  have 1: "\<exists>m. (0, Some (replicate 32 7), Some [0, 1]) =
          (rand_Int63 ex_env + of_nat m, Some (GoBytes (mix_hash (ret ex_state_found)) 32),
           GetSeedHash ex_env (NumberU64 ex_block))"
    by simp
  from b ex_updateDAG hn df
  have 2: "\<exists>s'. Search ex_env ex_block (\<lambda>i. True) ex_state = Some (Inr ((0, None, None), s'))"
    by simp
  from 1 2 ex_Search_found ex_updateDAG show ?thesis by blast
qed

subsection \<open>The target\<close>

text \<open>
  Claim C5 as stated, with \<open>maxUint256 = 2 ^ 256 - 1\<close>, fails: at difficulty 2 the source's
  target is \<open>2 ^ 255\<close>, not \<open>floor((2 ^ 256 - 1) / 2) = 2 ^ 255 - 1\<close>, and \<^verbatim>\<open>Verify\<close> accepts a
  block whose digest is \<open>2 ^ 255\<close>.
\<close>

theorem C5_counterexample:
  "big_Div tt256 (Difficulty ex_block2) = Inr (2 ^ 255)
   \<and> (2 ^ 256 - 1) div Difficulty ex_block2 = 2 ^ 255 - 1
   \<and> Verify ex_env ex_block2 ex_state = Inr (True, ex_state_verified)
   \<and> Bytes2Big (GoBytes (result (ret ex_state_verified)) 32) = 2 ^ 255
   \<and> \<not> Bytes2Big (GoBytes (result (ret ex_state_verified)) 32)
         \<le> (2 ^ 256 - 1) div Difficulty ex_block2"
proof -
  have d: "Difficulty ex_block2 = 2" by (simp add: ex_block2_def ex_block_def)
  have r: "result (ret ex_state_verified) = 128 # replicate 31 0"
    by (simp add: ex_state_verified_def)
  show ?thesis unfolding d r ex_digest
    using ex_Verify by (simp add: big_Div_def tt256_def)
qed

text \<open>
  Claim C5, amended: the dividend is \<^verbatim>\<open>tt256\<close>, that is \<open>2 ^ 256\<close>. For every positive
  difficulty \<open>d\<close> the target is \<open>floor(2 ^ 256 / d)\<close>, and \<^verbatim>\<open>verify\<close> returns exactly whether
  the digest, read as a big-endian unsigned integer, is at most that target. \<^verbatim>\<open>Search\<close>
  accepts exactly on that test, too. A search that returns cancelled has seen the stop
  signal at a poll before which every attempt had a digest above the target; a nonce it
  returns has a digest within the target, and every nonce tried before it has not.
  Conversely, when \<^verbatim>\<open>updateDAG\<close> succeeds and the block has a hash, the first \<open>m\<close> attempts
  are above the target and unstopped, the stop signal is not ready at poll \<open>m\<close> and the
  digest of attempt \<open>m\<close> is within the target, then \<^verbatim>\<open>Search\<close> returns that nonce.
\<close>

theorem C5_target_is_tt256_div_difficulty:
  "(0 < d \<longrightarrow> big_Div tt256 d = Inr (2 ^ 256 div d))
   \<and> (0 < d \<and> verify e h mixd d bn n s = Inr (b, s') \<longrightarrow>
        b = (Bytes2Big (GoBytes (result (ret s')) 32) \<le> 2 ^ 256 div d))
   \<and> (0 < Difficulty block \<and> Search e block stop s0 = Some (Inr (r, s1)) \<longrightarrow>
        (\<exists>k. r = (0, None, None) \<and> stop k
              \<and> rejected e block stop (2 ^ 256 div Difficulty block) 0 (rand_Int63 e) s1 k)
        \<or> (\<exists>m. r = (rand_Int63 e + of_nat m, Some (GoBytes (mix_hash (ret s1)) 32),
                     GetSeedHash e (NumberU64 block))
              \<and> \<not> stop m
              \<and> digest_full e block s1 (rand_Int63 e + of_nat m) =
                  Bytes2Big (GoBytes (result (ret s1)) 32)
              \<and> Bytes2Big (GoBytes (result (ret s1)) 32) \<le> 2 ^ 256 div Difficulty block
              \<and> rejected e block stop (2 ^ 256 div Difficulty block) 0 (rand_Int63 e) s1 m))
   \<and> (0 < Difficulty block \<and> updateDAG e s0 = Inr s2 \<and> HashNoNonce block \<noteq> [] \<and>
        rejected e block stop (2 ^ 256 div Difficulty block) 0 (rand_Int63 e) s2 m \<and>
        \<not> stop m \<and>
        digest_full e block s2 (rand_Int63 e + of_nat m) \<le> 2 ^ 256 div Difficulty block \<longrightarrow>
        (\<exists>s3. Search e block stop s0 =
                 Some (Inr ((rand_Int63 e + of_nat m, Some (GoBytes (mix_hash (ret s3)) 32),
                             GetSeedHash e (NumberU64 block)), s3))
              \<and> Bytes2Big (GoBytes (result (ret s3)) 32) =
                  digest_full e block s2 (rand_Int63 e + of_nat m)))"
proof (intro conjI impI)
  assume "0 < d"
  then show "big_Div tt256 d = Inr (2 ^ 256 div d)" by (rule big_Div_pos)
next
  assume a: "0 < d \<and> verify e h mixd d bn n s = Inr (b, s')"
  then have v: "verify e h mixd d bn n s = Inr (b, s')" and d: "0 < d" by blast+
  from verify_Inr [OF v] big_Div_pos [OF d]
  show "b = (Bytes2Big (GoBytes (result (ret s')) 32) \<le> 2 ^ 256 div d)" by auto
next
  assume a: "0 < Difficulty block \<and> Search e block stop s0 = Some (Inr (r, s1))"
  then have sr: "Search e block stop s0 = Some (Inr (r, s1))" and d: "0 < Difficulty block"
    by blast+
  show "(\<exists>k. r = (0, None, None) \<and> stop k
              \<and> rejected e block stop (2 ^ 256 div Difficulty block) 0 (rand_Int63 e) s1 k)
        \<or> (\<exists>m. r = (rand_Int63 e + of_nat m, Some (GoBytes (mix_hash (ret s1)) 32),
                     GetSeedHash e (NumberU64 block))
              \<and> \<not> stop m
              \<and> digest_full e block s1 (rand_Int63 e + of_nat m) =
                  Bytes2Big (GoBytes (result (ret s1)) 32)
              \<and> Bytes2Big (GoBytes (result (ret s1)) 32) \<le> 2 ^ 256 div Difficulty block
              \<and> rejected e block stop (2 ^ 256 div Difficulty block) 0 (rand_Int63 e) s1 m)"
  proof (cases "r = (0, None, None)")
    case True
    with sr have "Search e block stop s0 = Some (Inr ((0, None, None), s1))" by simp
    from Search_cancelled [OF this] big_Div_pos [OF d] True show ?thesis by auto
  next
    case False
    from Search_found [OF sr False] big_Div_pos [OF d] show ?thesis by auto
  qed
next
  assume a: "0 < Difficulty block \<and> updateDAG e s0 = Inr s2 \<and> HashNoNonce block \<noteq> [] \<and>
        rejected e block stop (2 ^ 256 div Difficulty block) 0 (rand_Int63 e) s2 m \<and>
        \<not> stop m \<and>
        digest_full e block s2 (rand_Int63 e + of_nat m) \<le> 2 ^ 256 div Difficulty block"
  then have d: "0 < Difficulty block" and u: "updateDAG e s0 = Inr s2"
    and hn: "HashNoNonce block \<noteq> []"
    and rj: "rejected e block stop (2 ^ 256 div Difficulty block) 0 (rand_Int63 e) s2 m"
    and ns: "\<not> stop m"
    and ac: "digest_full e block s2 (rand_Int63 e + of_nat m) \<le> 2 ^ 256 div Difficulty block"
    by blast+
  from Search_finds [OF u hn big_Div_pos [OF d] rj ns ac]
  show "\<exists>s3. Search e block stop s0 =
                 Some (Inr ((rand_Int63 e + of_nat m, Some (GoBytes (mix_hash (ret s3)) 32),
                             GetSeedHash e (NumberU64 block)), s3))
              \<and> Bytes2Big (GoBytes (result (ret s3)) 32) =
                  digest_full e block s2 (rand_Int63 e + of_nat m)"
    by blast
qed

theorem C5_witness:
  "big_Div tt256 2 = Inr (2 ^ 256 div 2)
   \<and> verify ex_env [1] [] 2 1 0 ex_state = Inr (True, ex_state_verified)
   \<and> Bytes2Big (GoBytes (result (ret ex_state_verified)) 32) \<le> 2 ^ 256 div 2
   \<and> updateDAG ex_env ex_state = Inr ex_state_dag
   \<and> digest_full ex_env ex_block2 ex_state_dag (rand_Int63 ex_env + of_nat 0)
        \<le> 2 ^ 256 div Difficulty ex_block2
   \<and> (\<exists>s3 m. Search ex_env ex_block2 (\<lambda>i. False) ex_state =
          Some (Inr ((rand_Int63 ex_env + of_nat m, Some (GoBytes (mix_hash (ret s3)) 32),
                      GetSeedHash ex_env (NumberU64 ex_block2)), s3))
        \<and> Bytes2Big (GoBytes (result (ret s3)) 32) \<le> 2 ^ 256 div Difficulty ex_block2
        \<and> rejected ex_env ex_block2 (\<lambda>i. False) (2 ^ 256 div Difficulty ex_block2) 0
             (rand_Int63 ex_env) s3 m)
   \<and> (\<exists>s3 k. Search ex_env ex_block4 ex_stop ex_state = Some (Inr ((0, None, None), s3))
        \<and> ex_stop k
        \<and> rejected ex_env ex_block4 ex_stop (2 ^ 256 div Difficulty ex_block4) 0
             (rand_Int63 ex_env) s3 k)"
proof -
  note a = C5_target_is_tt256_div_difficulty [where d = 2 and e = ex_env and h = "[1]"
      and mixd = "[]" and bn = 1 and n = 0 and s = ex_state and b = True
      and s' = ex_state_verified and block = ex_block2 and stop = "\<lambda>i. False"
      and ?s0.0 = ex_state and ?s2.0 = ex_state_dag and m = 0]
  have p: "(0::int) < 2" by simp
  from a p have 1: "big_Div tt256 2 = Inr (2 ^ 256 div 2)" by blast
  from a p ex_verify
  have 2: "Bytes2Big (GoBytes (result (ret ex_state_verified)) 32) \<le> 2 ^ 256 div 2"
    by blast
  have d2: "0 < Difficulty ex_block2" by (simp add: ex_block2_def ex_block_def)
  have hn2: "HashNoNonce ex_block2 \<noteq> []" by (simp add: ex_block2_def ex_block_def)
  have rj0: "rejected ex_env ex_block2 (\<lambda>i. False) (2 ^ 256 div Difficulty ex_block2) 0
               (rand_Int63 ex_env) ex_state_dag 0"
    by (rule rejected_0)
  have ac: "digest_full ex_env ex_block2 ex_state_dag (rand_Int63 ex_env + of_nat 0)
              \<le> 2 ^ 256 div Difficulty ex_block2"
    by (simp add: ex_digest_full ex_block2_def ex_block_def)
  from a d2 ex_updateDAG hn2 rj0 ac obtain sf where
    f: "Search ex_env ex_block2 (\<lambda>i. False) ex_state =
          Some (Inr ((rand_Int63 ex_env + of_nat 0, Some (GoBytes (mix_hash (ret sf)) 32),
                      GetSeedHash ex_env (NumberU64 ex_block2)), sf))"
    by blast
  let ?r = "(rand_Int63 ex_env + of_nat 0, Some (GoBytes (mix_hash (ret sf)) 32),
             GetSeedHash ex_env (NumberU64 ex_block2))"
  note b = C5_target_is_tt256_div_difficulty [where e = ex_env and block = ex_block2
      and stop = "\<lambda>i. False" and ?s0.0 = ex_state and r = ?r and ?s1.0 = sf,
      THEN conjunct2, THEN conjunct2, THEN conjunct1, rule_format, OF conjI [OF d2 f]]
  have 3: "\<exists>s3 m. Search ex_env ex_block2 (\<lambda>i. False) ex_state =
          Some (Inr ((rand_Int63 ex_env + of_nat m, Some (GoBytes (mix_hash (ret s3)) 32),
                      GetSeedHash ex_env (NumberU64 ex_block2)), s3))
        \<and> Bytes2Big (GoBytes (result (ret s3)) 32) \<le> 2 ^ 256 div Difficulty ex_block2
        \<and> rejected ex_env ex_block2 (\<lambda>i. False) (2 ^ 256 div Difficulty ex_block2) 0
             (rand_Int63 ex_env) s3 m"
    using b
  proof
    assume "\<exists>k. ?r = (0, None, None) \<and> False
              \<and> rejected ex_env ex_block2 (\<lambda>i. False) (2 ^ 256 div Difficulty ex_block2) 0
                   (rand_Int63 ex_env) sf k"
    then show ?thesis by blast
  next
    assume "\<exists>m. ?r = (rand_Int63 ex_env + of_nat m, Some (GoBytes (mix_hash (ret sf)) 32),
                     GetSeedHash ex_env (NumberU64 ex_block2))
              \<and> \<not> False
              \<and> digest_full ex_env ex_block2 sf (rand_Int63 ex_env + of_nat m) =
                  Bytes2Big (GoBytes (result (ret sf)) 32)
              \<and> Bytes2Big (GoBytes (result (ret sf)) 32) \<le> 2 ^ 256 div Difficulty ex_block2
              \<and> rejected ex_env ex_block2 (\<lambda>i. False) (2 ^ 256 div Difficulty ex_block2) 0
                   (rand_Int63 ex_env) sf m"
    then obtain m where
      e: "?r = (rand_Int63 ex_env + of_nat m, Some (GoBytes (mix_hash (ret sf)) 32),
                     GetSeedHash ex_env (NumberU64 ex_block2))"
      and le: "Bytes2Big (GoBytes (result (ret sf)) 32) \<le> 2 ^ 256 div Difficulty ex_block2"
      and rj: "rejected ex_env ex_block2 (\<lambda>i. False) (2 ^ 256 div Difficulty ex_block2) 0
                   (rand_Int63 ex_env) sf m"
      by blast
    from f e have "Search ex_env ex_block2 (\<lambda>i. False) ex_state =
          Some (Inr ((rand_Int63 ex_env + of_nat m, Some (GoBytes (mix_hash (ret sf)) 32),
                      GetSeedHash ex_env (NumberU64 ex_block2)), sf))"
      by (rule subst [where P = "\<lambda>x. Search ex_env ex_block2 (\<lambda>i. False) ex_state
            = Some (Inr (x, sf))", rotated])
    with le rj show ?thesis by blast
  qed
  from ex_Search_cancelled obtain sc where
    c: "Search ex_env ex_block4 ex_stop ex_state = Some (Inr ((0, None, None), sc))"
    by blast
  have d4: "0 < Difficulty ex_block4" by (simp add: ex_block4_def ex_block_def)
  note cc = C5_target_is_tt256_div_difficulty [where e = ex_env and block = ex_block4
      and stop = ex_stop and ?s0.0 = ex_state and r = "(0, None, None)" and ?s1.0 = sc,
      THEN conjunct2, THEN conjunct2, THEN conjunct1, rule_format, OF conjI [OF d4 c]]
  have 4: "\<exists>s3 k. Search ex_env ex_block4 ex_stop ex_state =
          Some (Inr ((0, None, None), s3))
        \<and> ex_stop k
        \<and> rejected ex_env ex_block4 ex_stop (2 ^ 256 div Difficulty ex_block4) 0
             (rand_Int63 ex_env) s3 k"
    using cc
  proof
    assume "\<exists>k. (0, None, None) = (0, None, None) \<and> ex_stop k
              \<and> rejected ex_env ex_block4 ex_stop (2 ^ 256 div Difficulty ex_block4) 0
                   (rand_Int63 ex_env) sc k"
    with c show ?thesis by blast
  next
    assume "\<exists>m. (0 :: uint64, None :: bytes option, None :: bytes option) =
                  (rand_Int63 ex_env + of_nat m, Some (GoBytes (mix_hash (ret sc)) 32),
                     GetSeedHash ex_env (NumberU64 ex_block4))
              \<and> \<not> ex_stop m
              \<and> digest_full ex_env ex_block4 sc (rand_Int63 ex_env + of_nat m) =
                  Bytes2Big (GoBytes (result (ret sc)) 32)
              \<and> Bytes2Big (GoBytes (result (ret sc)) 32) \<le> 2 ^ 256 div Difficulty ex_block4
              \<and> rejected ex_env ex_block4 ex_stop (2 ^ 256 div Difficulty ex_block4) 0
                   (rand_Int63 ex_env) sc m"
    then show ?thesis by simp
  qed
  from 1 2 3 4 ex_verify ex_updateDAG ac show ?thesis by blast
qed

subsection \<open>The dataset\<close>

text \<open>
  Claim C2 says that \<^verbatim>\<open>updateDAG\<close> brings the cache to the target epoch before it builds
  the dataset. The code does not: \<^verbatim>\<open>updateDAG\<close> never changes \<^verbatim>\<open>pow.paramsAndCache\<close> and
  never calls \<^verbatim>\<open>ethash_mkcache\<close>. When it regenerates (file missing, or its header below
  the target epoch), the dataset is what \<^verbatim>\<open>makeDAG\<close> builds from the cache held at entry,
  recorded under that cache's epoch whatever the target epoch is, while the file written
  carries the target epoch in its header.
\<close>

theorem C2_updateDAG_builds_from_held_cache:
  "(updateDAG e s = Inr s' \<longrightarrow>
      paramsAndCache s' = paramsAndCache s
      \<and> calls C_ethash_mkcache (trace s') = calls C_ethash_mkcache (trace s))
   \<and> (updateDAG e s = Inr s' \<and> needs_update e s \<and>
        (disk s = None \<or>
         (\<exists>c. disk s = Some c \<and> header e c < GetSeedBlockNum (CurrentBlock_NumberU64 e))) \<longrightarrow>
        dag s' = Some (built e s)
        \<and> built e s = fst (makeDAG e (paramsAndCache s) [])
        \<and> DAG_SeedBlockNum (built e s) = PAC_SeedBlockNum (paramsAndCache s)
        \<and> calls C_ethash_compute_full_data (trace s') =
            calls C_ethash_compute_full_data (trace s) + 1
        \<and> disk s' = Some (BigEndian_PutUint64 (GetSeedBlockNum (CurrentBlock_NumberU64 e)) @
                            GoBytes (DAG_dag (built e s)) (full_size (params (paramsAndCache s)))))"
proof (intro conjI impI)
  assume u: "updateDAG e s = Inr s'"
  from updateDAG_frame [OF u] show "paramsAndCache s' = paramsAndCache s" by blast
  from u show "calls C_ethash_mkcache (trace s') = calls C_ethash_mkcache (trace s)"
    by (rule updateDAG_calls)
next
  assume a: "updateDAG e s = Inr s' \<and> needs_update e s \<and>
        (disk s = None \<or>
         (\<exists>c. disk s = Some c \<and> header e c < GetSeedBlockNum (CurrentBlock_NumberU64 e)))"
  then have u: "updateDAG e s = Inr s'" and nu: "needs_update e s"
    and dk: "disk s = None \<or>
         (\<exists>c. disk s = Some c \<and> header e c < GetSeedBlockNum (CurrentBlock_NumberU64 e))"
    by blast+
  from updateDAG_Inr_cases [OF u] nu dk have s': "s' = regenerated e s" by auto
  show "dag s' = Some (built e s)" by (simp add: s' regenerated_def)
  show "built e s = fst (makeDAG e (paramsAndCache s) [])" by (simp add: built_def)
  show "DAG_SeedBlockNum (built e s) = PAC_SeedBlockNum (paramsAndCache s)"
    by (simp add: built_def makeDAG_def)
  show "calls C_ethash_compute_full_data (trace s') =
            calls C_ethash_compute_full_data (trace s) + 1"
    unfolding s' by (rule regenerated_calls)
  show "disk s' = Some (BigEndian_PutUint64 (GetSeedBlockNum (CurrentBlock_NumberU64 e)) @
                            GoBytes (DAG_dag (built e s)) (full_size (params (paramsAndCache s))))"
    by (simp add: s' regenerated_def)
qed

theorem C2_witness:
  "updateDAG ex_env_30001 ex_state = Inr ex_state_stale
   \<and> GetSeedBlockNum (CurrentBlock_NumberU64 ex_env_30001) = 30000
   \<and> PAC_SeedBlockNum (paramsAndCache ex_state) = 0
   \<and> paramsAndCache ex_state_stale = paramsAndCache ex_state
   \<and> calls C_ethash_mkcache (trace ex_state_stale) = calls C_ethash_mkcache (trace ex_state)
   \<and> dag ex_state_stale = Some (built ex_env_30001 ex_state)
   \<and> DAG_SeedBlockNum (built ex_env_30001 ex_state) = PAC_SeedBlockNum (paramsAndCache ex_state)
   \<and> calls C_ethash_compute_full_data (trace ex_state_stale) =
       calls C_ethash_compute_full_data (trace ex_state) + 1
   \<and> disk ex_state_stale = Some [0, 0, 0, 0, 0, 0, 117, 48, 16, 16, 16, 16]"
proof -
  note a = C2_updateDAG_builds_from_held_cache [where e = ex_env_30001 and s = ex_state
      and s' = ex_state_stale]
  have d: "disk ex_state = None" by (simp add: ex_state_def)
  have t: "GetSeedBlockNum (CurrentBlock_NumberU64 ex_env_30001) = 30000"
    by (simp add: ex_env_30001_simps GetSeedBlockNum_30001)
  have p: "PAC_SeedBlockNum (paramsAndCache ex_state) = 0" by (simp add: ex_state_def)
  have k: "disk ex_state_stale = Some [0, 0, 0, 0, 0, 0, 117, 48, 16, 16, 16, 16]"
    by (simp add: ex_state_stale_def)
  from a ex_updateDAG_stale ex_needs_update [of ex_env_30001] d t p k
  show ?thesis by blast
qed

text \<open>
  Claim C4 says that a file shorter than its 8-byte header counts as no file: no crash,
  the dataset is regenerated. The code has no length check. With a file of at most 8
  bytes, \<^verbatim>\<open>updateDAG\<close> panics whenever the target epoch is 0 (\<^verbatim>\<open>data[0:8]\<close> beyond the capacity,
  \<^verbatim>\<open>data[8:]\<close> beyond the length, or \<^verbatim>\<open>&data[0]\<close> of an empty slice); for other target epochs it
  returns only when the slice has 8 bytes of capacity and they read as an epoch below the
  target, and then it has regenerated.
\<close>

theorem C4_short_file:
  "(needs_update e s \<and> disk s = Some c \<and> length c \<le> 8 \<and>
      GetSeedBlockNum (CurrentBlock_NumberU64 e) = 0 \<longrightarrow> (\<exists>p. updateDAG e s = Inl p))
   \<and> (needs_update e s \<and> disk s = Some c \<and> length c \<le> 8 \<and> updateDAG e s = Inr s' \<longrightarrow>
        s' = regenerated e s \<and> header e c < GetSeedBlockNum (CurrentBlock_NumberU64 e))"
proof (intro conjI impI)
  assume a: "needs_update e s \<and> disk s = Some c \<and> length c \<le> 8 \<and>
      GetSeedBlockNum (CurrentBlock_NumberU64 e) = 0"
  then have "\<not> header e c < GetSeedBlockNum (CurrentBlock_NumberU64 e)" by simp
  with a updateDAG_short show "\<exists>p. updateDAG e s = Inl p" by blast
next
  assume a: "needs_update e s \<and> disk s = Some c \<and> length c \<le> 8 \<and> updateDAG e s = Inr s'"
  then have "s' = regenerated e s \<and> header e c < GetSeedBlockNum (CurrentBlock_NumberU64 e)"
    using updateDAG_short_Inr by blast
  then show "s' = regenerated e s" "header e c < GetSeedBlockNum (CurrentBlock_NumberU64 e)"
    by blast+
qed

theorem C4_witness:
  "needs_update ex_env ex_state_short \<and> disk ex_state_short = Some [1, 2, 3]
   \<and> GetSeedBlockNum (CurrentBlock_NumberU64 ex_env) = 0
   \<and> updateDAG ex_env ex_state_short = Inl SliceBoundsOutOfRange
   \<and> (\<exists>p. updateDAG ex_env ex_state_short = Inl p)
   \<and> needs_update ex_env_spare ex_state_empty \<and> disk ex_state_empty = Some []
   \<and> updateDAG ex_env_spare ex_state_empty = Inr (regenerated ex_env_spare ex_state_empty)
   \<and> header ex_env_spare [] < GetSeedBlockNum (CurrentBlock_NumberU64 ex_env_spare)"
proof -
  note a = C4_short_file [where e = ex_env and s = ex_state_short and c = "[1, 2, 3]"]
  note b = C4_short_file [where e = ex_env_spare and s = ex_state_empty and c = "[]"
      and s' = "regenerated ex_env_spare ex_state_empty"]
  have nu: "needs_update ex_env ex_state_short"
    by (simp add: needs_update_def ex_state_short_def ex_state_def)
  have d: "disk ex_state_short = Some [1, 2, 3]" by (simp add: ex_state_short_def)
  have l: "length ([1, 2, 3] :: bytes) \<le> 8" by simp
  have z: "GetSeedBlockNum (CurrentBlock_NumberU64 ex_env) = 0"
    by (simp add: ex_env_simps GetSeedBlockNum_0)
  from a nu d l z have 1: "\<exists>p. updateDAG ex_env ex_state_short = Inl p" by blast
  have nu2: "needs_update ex_env_spare ex_state_empty"
    by (simp add: needs_update_def ex_state_empty_def ex_state_def)
  have d2: "disk ex_state_empty = Some []" by (simp add: ex_state_empty_def)
  have l2: "length ([] :: bytes) \<le> 8" by simp
  from b nu2 d2 l2 ex_updateDAG_empty
  have 2: "header ex_env_spare [] < GetSeedBlockNum (CurrentBlock_NumberU64 ex_env_spare)"
    by blast
  from 1 2 nu d z nu2 d2 ex_updateDAG_short ex_updateDAG_empty show ?thesis by blast
qed

text \<open>
  Claim C6 as stated fails: a dataset adopted from the file is recorded under the epoch
  of the held cache, whatever its size. Here the cache is of epoch 0, whose dataset size
  is 4, the file's header is 30000 and five bytes follow it.
\<close>

theorem C6_counterexample:
  "sizes_match ex_env ex_state_file
   \<and> updateDAG ex_env ex_state_file = Inr ex_state_adopted
   \<and> dag ex_state_adopted = Some \<lparr>DAG_SeedBlockNum = 0, DAG_dag = [9, 9, 9, 9, 9]\<rparr>
   \<and> full_size (ethash_params_init ex_env (ucast (0 :: uint64))) = 4
   \<and> \<not> sizes_match ex_env ex_state_adopted"
proof -
  have a: "sizes_match ex_env ex_state_file"
    using ex_pac_ok by (simp add: sizes_match_def ex_state_file_def ex_state_def)
  have b: "dag ex_state_adopted = Some \<lparr>DAG_SeedBlockNum = 0, DAG_dag = [9, 9, 9, 9, 9]\<rparr>"
    by (simp add: ex_state_adopted_def)
  have c: "full_size (ethash_params_init ex_env (ucast (0 :: uint64))) = 4"
    by (simp add: ex_env_simps)
  have "\<not> dag_ok ex_env \<lparr>DAG_SeedBlockNum = 0, DAG_dag = [9, 9, 9, 9, 9]\<rparr>"
    by (simp add: dag_ok_def ex_env_simps)
  then have d: "\<not> sizes_match ex_env ex_state_adopted"
    by (simp add: sizes_match_def b)
  from a b c d ex_updateDAG_adopt show ?thesis by blast
qed

text \<open>
  Claim C6, amended. The live cache always carries the sizing parameters of its own
  recorded epoch and a buffer of their cache size: \<^verbatim>\<open>New\<close> establishes this and
  \<^verbatim>\<open>updateCache\<close>, \<^verbatim>\<open>Verify\<close>, \<^verbatim>\<open>Search\<close> and \<^verbatim>\<open>updateDAG\<close> keep it. A dataset that
  \<^verbatim>\<open>updateDAG\<close> regenerates is recorded under the epoch of the held cache and has the
  dataset size of that epoch. A dataset adopted from the file (header not below the target
  epoch, more than 8 bytes) is recorded under the epoch of the held cache and consists of
  the bytes after the header, whatever their number.
\<close>

theorem C6_sizes_of_built_buffers:
  "(New e f = Inr s0 \<longrightarrow> pac_ok e (paramsAndCache s0) \<and> dag s0 = None)
   \<and> (pac_ok e (paramsAndCache s) \<and> updateCache e s = Inr s1 \<longrightarrow>
        pac_ok e (paramsAndCache s1) \<and> dag s1 = dag s)
   \<and> (pac_ok e (paramsAndCache s) \<and> Verify e block s = Inr (b, s2) \<longrightarrow>
        pac_ok e (paramsAndCache s2) \<and> dag s2 = dag s)
   \<and> (pac_ok e (paramsAndCache s) \<and> Search e block stop s = Some (Inr (r, s3)) \<longrightarrow>
        pac_ok e (paramsAndCache s3) \<and> (\<exists>s'. updateDAG e s = Inr s' \<and> dag s3 = dag s'))
   \<and> (pac_ok e (paramsAndCache s) \<and> updateDAG e s = Inr s4 \<longrightarrow>
        pac_ok e (paramsAndCache s4) \<and>
        ((\<not> needs_update e s \<and> dag s4 = dag s)
         \<or> (needs_update e s \<and> dag s4 = Some (built e s) \<and> dag_ok e (built e s) \<and>
              DAG_SeedBlockNum (built e s) = PAC_SeedBlockNum (paramsAndCache s) \<and>
              (disk s = None \<or>
               (\<exists>c. disk s = Some c \<and>
                    header e c < GetSeedBlockNum (CurrentBlock_NumberU64 e))))
         \<or> (needs_update e s \<and>
              (\<exists>c. disk s = Some c \<and> 8 < length c
                 \<and> \<not> header e c < GetSeedBlockNum (CurrentBlock_NumberU64 e)
                 \<and> dag s4 = Some \<lparr>DAG_SeedBlockNum = PAC_SeedBlockNum (paramsAndCache s),
                                   DAG_dag = drop 8 c\<rparr>))))"
proof (intro conjI impI)
  assume "New e f = Inr s0"
  then show "pac_ok e (paramsAndCache s0)" "dag s0 = None"
    using New_ok by blast+
next
  assume a: "pac_ok e (paramsAndCache s) \<and> updateCache e s = Inr s1"
  then have "pac_ok e (paramsAndCache s1) \<and> dag s1 = dag s"
    using updateCache_ok by blast
  then show "pac_ok e (paramsAndCache s1)" "dag s1 = dag s" by blast+
next
  assume a: "pac_ok e (paramsAndCache s) \<and> Verify e block s = Inr (b, s2)"
  then have "pac_ok e (paramsAndCache s2) \<and> dag s2 = dag s"
    using Verify_frame by blast
  then show "pac_ok e (paramsAndCache s2)" "dag s2 = dag s" by blast+
next
  assume a: "pac_ok e (paramsAndCache s) \<and> Search e block stop s = Some (Inr (r, s3))"
  then have sr: "Search e block stop s = Some (Inr (r, s3))" and ok: "pac_ok e (paramsAndCache s)"
    by blast+
  from Search_frame [OF sr] obtain s' where
    f: "updateDAG e s = Inr s'" "paramsAndCache s3 = paramsAndCache s" "dag s3 = dag s'"
    by blast
  from f ok show "pac_ok e (paramsAndCache s3)" by simp
  from f show "\<exists>s'. updateDAG e s = Inr s' \<and> dag s3 = dag s'" by blast
next
  assume a: "pac_ok e (paramsAndCache s) \<and> updateDAG e s = Inr s4"
  then have u: "updateDAG e s = Inr s4" and ok: "pac_ok e (paramsAndCache s)" by blast+
  from updateDAG_frame [OF u] ok show "pac_ok e (paramsAndCache s4)" by simp
  from updateDAG_sizes [OF u] built_ok [OF ok]
  show "(\<not> needs_update e s \<and> dag s4 = dag s)
         \<or> (needs_update e s \<and> dag s4 = Some (built e s) \<and> dag_ok e (built e s) \<and>
              DAG_SeedBlockNum (built e s) = PAC_SeedBlockNum (paramsAndCache s) \<and>
              (disk s = None \<or>
               (\<exists>c. disk s = Some c \<and>
                    header e c < GetSeedBlockNum (CurrentBlock_NumberU64 e))))
         \<or> (needs_update e s \<and>
              (\<exists>c. disk s = Some c \<and> 8 < length c
                 \<and> \<not> header e c < GetSeedBlockNum (CurrentBlock_NumberU64 e)
                 \<and> dag s4 = Some \<lparr>DAG_SeedBlockNum = PAC_SeedBlockNum (paramsAndCache s),
                                   DAG_dag = drop 8 c\<rparr>))"
    by blast
qed

theorem C6_witness:
  "New ex_env None = Inr ex_state
   \<and> pac_ok ex_env (paramsAndCache ex_state) \<and> dag ex_state = None
   \<and> pac_ok ex_env (paramsAndCache
         (ex_state\<lparr>trace := trace ex_state @ [Lock cacheMutex, Unlock cacheMutex]\<rparr>))
   \<and> pac_ok ex_env (paramsAndCache ex_state_verified)
   \<and> pac_ok ex_env (paramsAndCache ex_state_found)
   \<and> pac_ok ex_env (paramsAndCache ex_state_dag)
   \<and> dag ex_state_dag = Some (built ex_env ex_state) \<and> dag_ok ex_env (built ex_env ex_state)
   \<and> updateDAG ex_env ex_state_file = Inr ex_state_adopted
   \<and> pac_ok ex_env (paramsAndCache ex_state_adopted)
   \<and> dag ex_state_adopted =
        Some \<lparr>DAG_SeedBlockNum = PAC_SeedBlockNum (paramsAndCache ex_state_file),
              DAG_dag = drop 8 [0, 0, 0, 0, 0, 0, 117, 48, 9, 9, 9, 9, 9]\<rparr>"
proof -
  note a = C6_sizes_of_built_buffers [where e = ex_env and f = None and ?s0.0 = ex_state
      and s = ex_state
      and ?s1.0 = "ex_state\<lparr>trace := trace ex_state @ [Lock cacheMutex, Unlock cacheMutex]\<rparr>"
      and block = ex_block2 and b = True and ?s2.0 = ex_state_verified]
  note b = C6_sizes_of_built_buffers [where e = ex_env and s = ex_state
      and block = ex_block and stop = "\<lambda>i. False"
      and r = "(0, Some (replicate 32 7), Some [0, 1])" and ?s3.0 = ex_state_found
      and ?s4.0 = ex_state_dag]
  note c = C6_sizes_of_built_buffers [where e = ex_env and s = ex_state_file
      and ?s4.0 = ex_state_adopted]
  from a ex_state_New have 1: "pac_ok ex_env (paramsAndCache ex_state)" "dag ex_state = None"
    by blast+
  from a 1 ex_updateCache_current
  have 2: "pac_ok ex_env (paramsAndCache
         (ex_state\<lparr>trace := trace ex_state @ [Lock cacheMutex, Unlock cacheMutex]\<rparr>))"
    by blast
  from a 1 ex_Verify have 3: "pac_ok ex_env (paramsAndCache ex_state_verified)" by blast
  from b 1 ex_Search_found have 4: "pac_ok ex_env (paramsAndCache ex_state_found)" by blast
  from b 1 ex_updateDAG have 5: "pac_ok ex_env (paramsAndCache ex_state_dag)" by blast
  have d0: "disk ex_state = None" by (simp add: ex_state_def)
  from b 1 ex_updateDAG ex_needs_update [of ex_env] d0
  have 6: "dag ex_state_dag = Some (built ex_env ex_state) \<and> dag_ok ex_env (built ex_env ex_state)"
    by auto
  have pf: "pac_ok ex_env (paramsAndCache ex_state_file)"
    using 1 by (simp add: ex_state_file_def)
  from c pf ex_updateDAG_adopt have 7: "pac_ok ex_env (paramsAndCache ex_state_adopted)"
    by blast
  have 8: "dag ex_state_adopted =
        Some \<lparr>DAG_SeedBlockNum = PAC_SeedBlockNum (paramsAndCache ex_state_file),
              DAG_dag = drop 8 [0, 0, 0, 0, 0, 0, 117, 48, 9, 9, 9, 9, 9]\<rparr>"
    by (simp add: ex_state_adopted_def ex_state_file_def ex_state_def)
  from 1 2 3 4 5 6 7 8 ex_state_New ex_updateDAG_adopt show ?thesis by blast
qed

end
